theory Spec2Isabelle
  imports Main "HOL-Library.AList"
begin


section \<open>Exceptions\<close>

text \<open>
  The exceptions the modelled code can raise. \<open>Exception\<close> carries the message of a
  plain \<^verbatim>\<open>raise Exception(...)\<close>; the other constructors are the Python and
  sqlite3 exception classes of the same names.
\<close>

datatype error =
    AssertionError
  | KeyError string
  | RecursionError
  | OperationalError string
  | IntegrityError string
  | ProgrammingError
  | NoTimestamps
  | Exception string

section \<open>The table maps (TABLES\_ARGS of v04\_00.Schema and v04\_01.Schema)\<close>

datatype constraint = PRIMARY_KEY | NOT_NULL

text \<open>
  The column classes of \<^verbatim>\<open>kcidb.db.sqlite.schema\<close>, as the table maps construct them:
  each takes an optional constraint, \<open>Column\<close> also the SQL type.
\<close>

datatype column =
    Column string "constraint option"
  | BoolColumn "constraint option"
  | IntegerColumn "constraint option"
  | TextColumn "constraint option"
  | JSONColumn "constraint option"
  | TimestampColumn "constraint option"

record table_args =
  columns :: "(string \<times> column) list"
  primary_key :: "string list option"

definition checkouts_args :: table_args where
  "checkouts_args = \<lparr>columns = [
     (''id'', TextColumn (Some PRIMARY_KEY)),
     (''origin'', TextColumn (Some NOT_NULL)),
     (''tree_name'', TextColumn None),
     (''git_repository_url'', TextColumn None),
     (''git_commit_hash'', TextColumn None),
     (''git_commit_name'', TextColumn None),
     (''git_repository_branch'', TextColumn None),
     (''patchset_files'', JSONColumn None),
     (''patchset_hash'', TextColumn None),
     (''message_id'', TextColumn None),
     (''comment'', TextColumn None),
     (''start_time'', TimestampColumn None),
     (''contacts'', JSONColumn None),
     (''log_url'', TextColumn None),
     (''log_excerpt'', TextColumn None),
     (''valid'', BoolColumn None),
     (''misc'', JSONColumn None)],
   primary_key = None\<rparr>"

definition builds_args :: table_args where
  "builds_args = \<lparr>columns = [
     (''checkout_id'', TextColumn (Some NOT_NULL)),
     (''id'', TextColumn (Some PRIMARY_KEY)),
     (''origin'', TextColumn (Some NOT_NULL)),
     (''comment'', TextColumn None),
     (''start_time'', TimestampColumn None),
     (''duration'', Column ''REAL'' None),
     (''architecture'', TextColumn None),
     (''command'', TextColumn None),
     (''compiler'', TextColumn None),
     (''input_files'', JSONColumn None),
     (''output_files'', JSONColumn None),
     (''config_name'', TextColumn None),
     (''config_url'', TextColumn None),
     (''log_url'', TextColumn None),
     (''log_excerpt'', TextColumn None),
     (''valid'', BoolColumn None),
     (''misc'', JSONColumn None)],
   primary_key = None\<rparr>"

definition tests_args :: table_args where
  "tests_args = \<lparr>columns = [
     (''build_id'', TextColumn (Some NOT_NULL)),
     (''id'', TextColumn (Some PRIMARY_KEY)),
     (''origin'', TextColumn (Some NOT_NULL)),
     (''environment.comment'', TextColumn None),
     (''environment.misc'', JSONColumn None),
     (''path'', TextColumn None),
     (''comment'', TextColumn None),
     (''log_url'', TextColumn None),
     (''log_excerpt'', TextColumn None),
     (''status'', TextColumn None),
     (''waived'', BoolColumn None),
     (''start_time'', TimestampColumn None),
     (''duration'', Column ''REAL'' None),
     (''output_files'', JSONColumn None),
     (''misc'', JSONColumn None)],
   primary_key = None\<rparr>"

definition issues_args :: table_args where
  "issues_args = \<lparr>columns = [
     (''id'', TextColumn (Some NOT_NULL)),
     (''version'', IntegerColumn (Some NOT_NULL)),
     (''origin'', TextColumn (Some NOT_NULL)),
     (''report_url'', TextColumn None),
     (''report_subject'', TextColumn None),
     (''culprit.code'', BoolColumn None),
     (''culprit.tool'', BoolColumn None),
     (''culprit.harness'', BoolColumn None),
     (''build_valid'', BoolColumn None),
     (''test_status'', TextColumn None),
     (''comment'', TextColumn None),
     (''misc'', JSONColumn None)],
   primary_key = Some [''id'', ''version'']\<rparr>"

definition incidents_args :: table_args where
  "incidents_args = \<lparr>columns = [
     (''id'', TextColumn (Some PRIMARY_KEY)),
     (''origin'', TextColumn (Some NOT_NULL)),
     (''issue_id'', TextColumn (Some NOT_NULL)),
     (''issue_version'', IntegerColumn (Some NOT_NULL)),
     (''build_id'', TextColumn None),
     (''test_id'', TextColumn None),
     (''present'', BoolColumn None),
     (''comment'', TextColumn None),
     (''misc'', JSONColumn None)],
   primary_key = None\<rparr>"

text \<open>
  A Python \<^verbatim>\<open>dict\<close> literal in insertion order. v04\_00 (lines 164-226): checkouts,
  builds, tests.
\<close>

definition TABLES_ARGS_v04_00 :: "(string \<times> table_args) list" where
  "TABLES_ARGS_v04_00 =
     [(''checkouts'', checkouts_args), (''builds'', builds_args), (''tests'', tests_args)]"

text \<open>
  \<^verbatim>\<open>dict(**mapping, key=value, ...)\<close> raises \<^verbatim>\<open>TypeError\<close> when a keyword repeats a
  key of the mapping, and otherwise appends the keywords in order.
\<close>

definition dict_kwargs :: "(string \<times> 'a) list \<Rightarrow> (string \<times> 'a) list \<Rightarrow> (string \<times> 'a) list option" where
  "dict_kwargs mapping kwargs =
     (if \<exists>k \<in> set (map fst kwargs). k \<in> set (map fst mapping) then None
      else Some (mapping @ kwargs))"

text \<open>
  v04\_01 (lines 25-58): \<^verbatim>\<open>dict(**PreviousSchema.TABLES_ARGS, issues=..., incidents=...)\<close>.
\<close>

definition TABLES_ARGS_v04_01 :: "(string \<times> table_args) list option" where
  "TABLES_ARGS_v04_01 =
     dict_kwargs TABLES_ARGS_v04_00 [(''issues'', issues_args), (''incidents'', incidents_args)]"

text \<open>
  \<^verbatim>\<open>TABLES = {name: Table(**args) for name, args in TABLES_ARGS.items()}\<close>: the same
  names in the same order. The \<^verbatim>\<open>Table\<close> objects are kept as their constructor
  arguments.
\<close>

definition TABLES_v04_00 :: "(string \<times> table_args) list" where
  "TABLES_v04_00 = TABLES_ARGS_v04_00"

definition TABLES_v04_01 :: "(string \<times> table_args) list" where
  "TABLES_v04_01 = (case TABLES_ARGS_v04_01 of None \<Rightarrow> [] | Some args \<Rightarrow> args)"

section \<open>The connection and the schema-version marker (v04\_00.Connection)\<close>

text \<open>
  A table of the database: the schema it was created with and its rows. A row maps a
  column name to its value, \<open>None\<close> being SQL NULL.
\<close>

type_synonym 'v row = "string \<Rightarrow> 'v option"

record 'v table_state =
  tbl_schema :: table_args
  tbl_rows :: "'v row list"

text \<open>
  A connection: its attribute \<open>load_prio_db\<close>, and the SQLite database behind it,
  which is the \<^verbatim>\<open>user_version\<close> header field and the tables by name, as the
  connection sees them (\<open>tables\<close>, pending changes included) and as of the last commit
  (\<open>durable\<close>).
\<close>

type_synonym 'v database = "string \<Rightarrow> 'v table_state option"

record 'v connection =
  load_prio_db :: bool
  user_version :: int
  tables :: "'v database"
  durable :: "'v database"

text \<open>
  \<^verbatim>\<open>with self.conn:\<close> -- sqlite3's connection as a context manager commits when the
  body returns and rolls back when it raises; the exception propagates.
\<close>

definition commit :: "'v connection \<Rightarrow> 'v connection" where
  "commit c = c\<lparr>durable := tables c\<rparr>"

definition rollback :: "'v connection \<Rightarrow> 'v connection" where
  "rollback c = c\<lparr>tables := durable c\<rparr>"

definition with_conn ::
  "('v connection \<Rightarrow> error option \<times> 'v connection) \<Rightarrow> 'v connection
     \<Rightarrow> error option \<times> 'v connection" where
  "with_conn body c =
     (case body c of
        (None, c') \<Rightarrow> (None, commit c')
      | (Some e, c') \<Rightarrow> (Some e, rollback c'))"

text \<open>
  \<^verbatim>\<open>PRAGMA user_version = N\<close>: the header field is a signed 32-bit integer, and
  SQLite reads the number with \<^verbatim>\<open>sqlite3Atoi\<close>, which gives 0 for a text that does not
  fit. Only non-negative numbers are ever written by the code below.
\<close>

definition pragma_set_user_version :: "int \<Rightarrow> 'v connection \<Rightarrow> 'v connection" where
  "pragma_set_user_version number c =
     c\<lparr>user_version := (if - 2147483648 \<le> number \<and> number \<le> 2147483647 then number else 0)\<rparr>"

text \<open>
  \<^verbatim>\<open>set_schema_version\<close> (lines 86-109). The assertion admits \<open>None\<close> and pairs of
  non-negative integers. \<^verbatim>\<open>number = 0 if version is None else
  int(version[0] * 1000 + version[1] % 1000)\<close>.
\<close>

definition set_schema_version ::
  "(int \<times> int) option \<Rightarrow> 'v connection \<Rightarrow> error option \<times> 'v connection" where
  "set_schema_version version c =
     (case version of
        None \<Rightarrow> with_conn (\<lambda>c. (None, pragma_set_user_version 0 c)) c
      | Some (major, minor) \<Rightarrow>
          if major < 0 \<or> minor < 0 then (Some AssertionError, c)
          else with_conn
                 (\<lambda>c. (None, pragma_set_user_version (major * 1000 + minor mod 1000) c)) c)"

text \<open>
  Python's \<^verbatim>\<open>int(number / 1000)\<close>: true division, then truncation towards zero. The
  quotient of a 32-bit integer by 1000 is represented closely enough by a double for the
  truncation to be that of the exact quotient.
\<close>

definition int_truediv :: "int \<Rightarrow> int \<Rightarrow> int" where
  "int_truediv a b = sgn a * sgn b * (\<bar>a\<bar> div \<bar>b\<bar>)"

text \<open>
  \<^verbatim>\<open>get_schema_version\<close> (lines 111-130): \<^verbatim>\<open>if number: return int(number / 1000),
  int(number % 1000)\<close>, else \<open>None\<close>. The first component of the result is the
  exception, the second the returned value.
\<close>

definition get_schema_version ::
  "'v connection \<Rightarrow> (error option \<times> (int \<times> int) option) \<times> 'v connection" where
  "get_schema_version c =
     (let number = user_version c in
      ((None, if number \<noteq> 0 then Some (int_truediv number 1000, number mod 1000) else None),
       commit c))"

text \<open>A connection to a new, empty database file (no table, \<^verbatim>\<open>user_version\<close> 0).\<close>

definition new_connection :: "bool \<Rightarrow> string connection" where
  "new_connection prio =
     \<lparr>load_prio_db = prio, user_version = 0, tables = Map.empty, durable = Map.empty\<rparr>"

section \<open>Statements and the engine\<close>

text \<open>
  The statements the schema classes hand to \<^verbatim>\<open>cursor.execute\<close> and
  \<^verbatim>\<open>cursor.executemany\<close> to change the database: \<open>Create_table name schema\<close> is
  \<^verbatim>\<open>schema.format_create(name)\<close>, and \<open>Insert_rows name prio_db with_metadata rows\<close> is
  \<^verbatim>\<open>schema.format_insert(name, prio_db, with_metadata)\<close> executed for each of the packed
  rows. An engine executes a statement on the tables of the database: it returns the
  exception it raises, if any, and the tables as the statement leaves them. The
  functions below take the engine as an argument.
\<close>

datatype 'v statement =
    Create_table string table_args
  | Insert_rows string bool bool "'v row list"

type_synonym 'v engine = "'v statement \<Rightarrow> 'v database \<Rightarrow> error option \<times> 'v database"

text \<open>\<^verbatim>\<open>cursor.execute\<close> and \<^verbatim>\<open>cursor.executemany\<close> on the connection's cursor.\<close>

definition cursor_execute ::
  "'v engine \<Rightarrow> 'v statement \<Rightarrow> 'v connection \<Rightarrow> error option \<times> 'v connection" where
  "cursor_execute engine stmt c =
     (case engine stmt (tables c) of (exc, db) \<Rightarrow> (exc, c\<lparr>tables := db\<rparr>))"

text \<open>Python's \<^verbatim>\<open>repr\<close> of a string without quotes or escapes in it, as \<^verbatim>\<open>{name!r}\<close> formats a table name.\<close>

definition repr :: "string \<Rightarrow> string" where
  "repr s = [CHR 0x27] @ s @ [CHR 0x27]"

text \<open>
  The primary key of a table: the explicit composite key when there is one, else the
  columns marked \<open>PRIMARY_KEY\<close>.
\<close>

fun column_constraint :: "column \<Rightarrow> constraint option" where
  "column_constraint (Column t c) = c"
| "column_constraint (BoolColumn c) = c"
| "column_constraint (IntegerColumn c) = c"
| "column_constraint (TextColumn c) = c"
| "column_constraint (JSONColumn c) = c"
| "column_constraint (TimestampColumn c) = c"

definition key_columns :: "table_args \<Rightarrow> string list" where
  "key_columns schema =
     (case primary_key schema of
        Some names \<Rightarrow> names
      | None \<Rightarrow> map fst (filter (\<lambda>(name, col). column_constraint col = Some PRIMARY_KEY)
                           (columns schema)))"

definition row_key :: "table_args \<Rightarrow> 'v row \<Rightarrow> 'v option list" where
  "row_key schema r = map r (key_columns schema)"

definition not_null_columns :: "table_args \<Rightarrow> string list" where
  "not_null_columns schema =
     map fst (filter (\<lambda>(name, col). column_constraint col = Some NOT_NULL) (columns schema))"

text \<open>
  Modelled from the spec: the execution of \<^verbatim>\<open>Table.format_insert\<close>
  (\<^verbatim>\<open>kcidb/db/sqlite/schema.py\<close> is not among the sources). Section 4.4: on a
  primary-key collision the load-priority flag decides which of the two conflicting rows
  survives, the in-database row when it is set, the newly loaded row otherwise. A row
  with NULL in a \<open>NOT NULL\<close> column is refused.
\<close>

fun insert_row :: "table_args \<Rightarrow> bool \<Rightarrow> 'v row \<Rightarrow> 'v row list \<Rightarrow> 'v row list" where
  "insert_row schema prio_db new [] = [new]"
| "insert_row schema prio_db new (old # rows) =
     (if row_key schema old = row_key schema new
      then (if prio_db then old else new) # rows
      else old # insert_row schema prio_db new rows)"

fun insert_rows ::
  "string \<Rightarrow> bool \<Rightarrow> 'v row list \<Rightarrow> 'v database \<Rightarrow> error option \<times> 'v database" where
  "insert_rows name prio_db [] db = (None, db)"
| "insert_rows name prio_db (r # rs) db =
     (case db name of
        None \<Rightarrow> (Some (OperationalError (''no such table: '' @ name)), db)
      | Some t \<Rightarrow>
          if \<exists>col \<in> set (not_null_columns (tbl_schema t)). r col = None
          then (Some (IntegrityError (''NOT NULL constraint failed: '' @ name)), db)
          else insert_rows name prio_db rs
                 (db(name \<mapsto>
                    t\<lparr>tbl_rows := insert_row (tbl_schema t) prio_db r (tbl_rows t)\<rparr>)))"

text \<open>
  The engine. \<^verbatim>\<open>CREATE TABLE\<close> fails when a table of that name exists, and otherwise
  adds an empty table with the given columns; it reads and changes no other table.
\<close>

fun sqlite_execute :: "'v engine" where
  "sqlite_execute (Create_table name schema) db =
     (case db name of
        Some t \<Rightarrow> (Some (OperationalError (''table '' @ name @ '' already exists'')), db)
      | None \<Rightarrow> (None, db(name \<mapsto> \<lparr>tbl_schema = schema, tbl_rows = []\<rparr>)))"
| "sqlite_execute (Insert_rows name prio_db with_metadata rows) db =
     (case db name of
        None \<Rightarrow> (Some (OperationalError (''no such table: '' @ name)), db)
      | Some t \<Rightarrow> insert_rows name prio_db rows db)"

section \<open>Creating the tables: init (v04\_00) and \_inherit (v04\_01)\<close>

text \<open>
  \<^verbatim>\<open>Schema.init\<close> (v04\_00, lines 433-448): inside \<^verbatim>\<open>with self.conn\<close>, one
  \<^verbatim>\<open>CREATE TABLE\<close> per entry of \<^verbatim>\<open>self.TABLES\<close>; an exception of the engine is
  replaced by \<^verbatim>\<open>Exception(f"Failed creating table {table_name!r}")\<close>.
\<close>

fun init_loop ::
  "'v engine \<Rightarrow> (string \<times> table_args) list \<Rightarrow> 'v connection \<Rightarrow> error option \<times> 'v connection" where
  "init_loop engine [] c = (None, c)"
| "init_loop engine ((table_name, table_schema) # rest) c =
     (case cursor_execute engine (Create_table table_name table_schema) c of
        (Some exc, c') \<Rightarrow> (Some (Exception (''Failed creating table '' @ repr table_name)), c')
      | (None, c') \<Rightarrow> init_loop engine rest c')"

definition init ::
  "'v engine \<Rightarrow> (string \<times> table_args) list \<Rightarrow> 'v connection \<Rightarrow> error option \<times> 'v connection" where
  "init engine TABLES c = with_conn (init_loop engine TABLES) c"

text \<open>
  \<^verbatim>\<open>Schema._inherit\<close> (v04\_01, lines 108-132): the same loop over \<^verbatim>\<open>cls.TABLES\<close>,
  with the guard \<^verbatim>\<open>if table_name not in PreviousSchema.TABLES\<close>.
\<close>

fun inherit_loop ::
  "'v engine \<Rightarrow> (string \<times> table_args) list \<Rightarrow> (string \<times> table_args) list
     \<Rightarrow> 'v connection \<Rightarrow> error option \<times> 'v connection" where
  "inherit_loop engine previous [] c = (None, c)"
| "inherit_loop engine previous ((table_name, table_schema) # rest) c =
     (if table_name \<notin> set (map fst previous)
      then (case cursor_execute engine (Create_table table_name table_schema) c of
              (Some exc, c') \<Rightarrow>
                (Some (Exception (''Failed creating table '' @ repr table_name)), c')
            | (None, c') \<Rightarrow> inherit_loop engine previous rest c')
      else inherit_loop engine previous rest c)"

definition inherit :: "'v engine \<Rightarrow> 'v connection \<Rightarrow> error option \<times> 'v connection" where
  "inherit engine c = with_conn (inherit_loop engine TABLES_v04_00 TABLES_v04_01) c"

text \<open>
  A database complies with a schema when it holds exactly the schema's tables, each
  with the schema's columns and constraints.
\<close>

definition complies :: "'v connection \<Rightarrow> (string \<times> table_args) list \<Rightarrow> bool" where
  "complies c TABLES = (\<forall>name. map_option tbl_schema (tables c name) = map_of TABLES name)"

section \<open>Report documents, the I/O schema and the Schema class\<close>

text \<open>
  A report document: the version stamp and the object lists by name, in the insertion
  order of the Python \<^verbatim>\<open>dict\<close>. \<^verbatim>\<open>data[name] = objs\<close> is \<open>AList.update\<close>,
  \<^verbatim>\<open>name in data\<close> and \<^verbatim>\<open>data[name]\<close> are \<open>map_of\<close>.
\<close>

record 'o report =
  doc_version :: "nat \<times> nat"
  lists :: "(string \<times> 'o list) list"

text \<open>
  What the modelled code uses of its I/O schema \<^verbatim>\<open>self.io\<close> (a class of the package
  \<^verbatim>\<open>kcidb.io\<close>): the version it stamps on a new document, the identity fields of each
  object list, in order, the type graph (the children of each object list, the children
  of \<^verbatim>\<open>""\<close> being the roots), and the checks of a document.
\<close>

record 'o io_schema =
  io_version :: "nat \<times> nat"
  id_fields :: "(string \<times> string list) list"
  graph :: "(string \<times> string list) list"
  is_compatible_directly :: "'o report \<Rightarrow> bool"
  is_compatible_exactly :: "'o report \<Rightarrow> bool"
  is_valid_exactly :: "'o report \<Rightarrow> bool"

text \<open>\<^verbatim>\<open>self.io.new()\<close>: a document with the version stamp and no object list.\<close>

definition io_new :: "'o io_schema \<Rightarrow> 'o report" where
  "io_new io = \<lparr>doc_version = io_version io, lists = []\<rparr>"

text \<open>A point in time (\<^verbatim>\<open>datetime\<close>), in microseconds.\<close>

type_synonym datetime = int

text \<open>
  A schema class with what it uses from outside the modelled files:
  \<^item> \<open>io\<close> and \<open>TABLES\<close>, the class attributes;
  \<^item> \<open>LIGHT_ASSERTS\<close>, the constant of \<^verbatim>\<open>kcidb.misc\<close>;
  \<^item> \<open>pack_iter\<close> and \<open>unpack_iter\<close>, the methods of \<^verbatim>\<open>Table\<close> that turn objects into
    rows and rows into objects (the last argument is \<^verbatim>\<open>with_metadata\<close>);
  \<^item> \<open>dump_select\<close>, the rows that the statement of
    \<^verbatim>\<open>Table.format_dump(name, with_metadata, after, until)\<close> selects from the tables, or
    the exception that building or executing it raises;
  \<^item> \<open>column_names\<close>, the column list of the \<^verbatim>\<open>SELECT\<close> of \<open>query_iter\<close>
    (\<^verbatim>\<open>c.name for c in table_schema.columns.values() if with_metadata or not
    c.schema.metadata_expr\<close>).
\<close>

record ('o, 'v) schema =
  io :: "'o io_schema"
  TABLES :: "(string \<times> table_args) list"
  LIGHT_ASSERTS :: bool
  pack_iter :: "table_args \<Rightarrow> 'o list \<Rightarrow> bool \<Rightarrow> 'v row list"
  unpack_iter :: "table_args \<Rightarrow> 'v row list \<Rightarrow> bool \<Rightarrow> 'o list"
  dump_select :: "table_args \<Rightarrow> string \<Rightarrow> bool \<Rightarrow> datetime option \<Rightarrow> datetime option
                    \<Rightarrow> 'v database \<Rightarrow> error + 'v row list"
  column_names :: "table_args \<Rightarrow> bool \<Rightarrow> string list"

section \<open>load (v04\_00.Schema.load)\<close>

text \<open>
  The loop of lines 880-889: for each table of \<^verbatim>\<open>self.TABLES\<close>, in order, whose name
  is in the document, one \<^verbatim>\<open>executemany\<close> of the table's insert statement, formatted
  with \<^verbatim>\<open>self.conn.load_prio_db\<close>, over the packed objects. An exception ends the loop.
\<close>

fun load_loop ::
  "('o, 'v) schema \<Rightarrow> 'v engine \<Rightarrow> 'o report \<Rightarrow> bool \<Rightarrow> (string \<times> table_args) list
     \<Rightarrow> 'v connection \<Rightarrow> error option \<times> 'v connection" where
  "load_loop S engine data with_metadata [] c = (None, c)"
| "load_loop S engine data with_metadata ((table_name, table_schema) # rest) c =
     (case map_of (lists data) table_name of
        None \<Rightarrow> load_loop S engine data with_metadata rest c
      | Some objs \<Rightarrow>
          (case cursor_execute engine
                  (Insert_rows table_name (load_prio_db c) with_metadata
                     (pack_iter S table_schema objs with_metadata)) c of
             (Some exc, c') \<Rightarrow> (Some exc, c')
           | (None, c') \<Rightarrow> load_loop S engine data with_metadata rest c'))"

text \<open>
  \<^verbatim>\<open>load\<close> (lines 857-894): the two assertions on the document, the loop inside
  \<^verbatim>\<open>with self.conn\<close>, and after it \<^verbatim>\<open>self.conn.load_prio_db = not
  self.conn.load_prio_db\<close>, which an exception skips. The argument \<^verbatim>\<open>copy\<close> is not
  used by the method.
\<close>

definition load ::
  "('o, 'v) schema \<Rightarrow> 'v engine \<Rightarrow> 'o report \<Rightarrow> bool \<Rightarrow> bool
     \<Rightarrow> 'v connection \<Rightarrow> error option \<times> 'v connection" where
  "load S engine data with_metadata copy c =
     (if \<not> is_compatible_directly (io S) data then (Some AssertionError, c)
      else if \<not> (LIGHT_ASSERTS S \<or> is_valid_exactly (io S) data) then (Some AssertionError, c)
      else (case with_conn (load_loop S engine data with_metadata (TABLES S)) c of
              (Some exc, c') \<Rightarrow> (Some exc, c')
            | (None, c') \<Rightarrow> (None, c'\<lparr>load_prio_db := \<not> load_prio_db c'\<rparr>)))"

text \<open>An engine that is handed \<open>prio_db\<close> as the priority of every insert statement.\<close>

fun with_priority :: "bool \<Rightarrow> 'v statement \<Rightarrow> 'v statement" where
  "with_priority prio_db (Insert_rows name p with_metadata rows) =
     Insert_rows name prio_db with_metadata rows"
| "with_priority prio_db (Create_table name schema) = Create_table name schema"

section \<open>The I/O schemas of the two database schemas\<close>

text \<open>
  Modelled from the spec: the classes \<^verbatim>\<open>kcidb.io.schema.V4_0\<close> and \<^verbatim>\<open>V4_2\<close> are not
  among the sources. Section 3 gives the type graph, \<^verbatim>\<open>""\<close> \<open>\<rightarrow>\<close> checkouts \<open>\<rightarrow>\<close> builds
  \<open>\<rightarrow>\<close> tests, and from v4.1 on issues \<open>\<rightarrow>\<close> incidents and builds, tests \<open>\<rightarrow>\<close> incidents;
  every object list is identified by its \<open>id\<close>, an issue by \<open>id\<close> and \<open>version\<close>. The
  checks of a document are arguments.
\<close>

definition io_V4_0 :: "('o report \<Rightarrow> bool) \<Rightarrow> ('o report \<Rightarrow> bool) \<Rightarrow> 'o io_schema" where
  "io_V4_0 compatible valid =
     \<lparr>io_version = (4, 0),
      id_fields = [(''checkouts'', [''id'']), (''builds'', [''id'']), (''tests'', [''id''])],
      graph = [('''', [''checkouts'']), (''checkouts'', [''builds'']),
               (''builds'', [''tests'']), (''tests'', [])],
      is_compatible_directly = compatible,
      is_compatible_exactly = compatible,
      is_valid_exactly = valid\<rparr>"

definition io_V4_2 :: "('o report \<Rightarrow> bool) \<Rightarrow> ('o report \<Rightarrow> bool) \<Rightarrow> 'o io_schema" where
  "io_V4_2 compatible valid =
     \<lparr>io_version = (4, 2),
      id_fields = [(''checkouts'', [''id'']), (''builds'', [''id'']), (''tests'', [''id'']),
                   (''issues'', [''id'', ''version'']), (''incidents'', [''id''])],
      graph = [('''', [''checkouts'', ''issues'']), (''checkouts'', [''builds'']),
               (''builds'', [''tests'', ''incidents'']), (''tests'', [''incidents'']),
               (''issues'', [''incidents'']), (''incidents'', [])],
      is_compatible_directly = compatible,
      is_compatible_exactly = compatible,
      is_valid_exactly = valid\<rparr>"

text \<open>
  The v4.0 schema class over objects that are their own rows: packing and unpacking
  change nothing, the dump statement selects every row of its table and, the tables
  having no timestamp column, raises \<open>NoTimestamps\<close> for a time window. The value of
  \<open>LIGHT_ASSERTS\<close> and the document checks are arguments.
\<close>

definition Schema_v04_00 ::
  "bool \<Rightarrow> ('v row report \<Rightarrow> bool) \<Rightarrow> ('v row report \<Rightarrow> bool) \<Rightarrow> ('v row, 'v) schema" where
  "Schema_v04_00 light compatible valid =
     \<lparr>io = io_V4_0 compatible valid,
      TABLES = TABLES_v04_00,
      LIGHT_ASSERTS = light,
      pack_iter = (\<lambda>table_schema objs with_metadata. objs),
      unpack_iter = (\<lambda>table_schema rows with_metadata. rows),
      dump_select = (\<lambda>table_schema name with_metadata after until db.
         if after \<noteq> None \<or> until \<noteq> None then Inl NoTimestamps
         else (case db name of
                 None \<Rightarrow> Inl (OperationalError (''no such table: '' @ name))
               | Some t \<Rightarrow> Inr (tbl_rows t))),
      column_names = (\<lambda>table_schema with_metadata. map fst (columns table_schema))\<rparr>"

text \<open>
  A check of a document that the database does not make: every object has an \<open>id\<close>
  with a colon in it (the I/O schema wants an \<open>id\<close> to start with the origin and a
  colon).
\<close>

definition ids_have_origin :: "string row report \<Rightarrow> bool" where
  "ids_have_origin data =
     (\<forall>objs \<in> set (map snd (lists data)). \<forall>obj \<in> set objs.
        case obj ''id'' of None \<Rightarrow> False | Some i \<Rightarrow> CHR '':'' \<in> set i)"

text \<open>Example rows and documents.\<close>

definition checkout_row :: "string \<Rightarrow> string \<Rightarrow> string row" where
  "checkout_row i comm = [''id'' \<mapsto> i, ''origin'' \<mapsto> ''origin'', ''comment'' \<mapsto> comm]"

definition build_row :: "string \<Rightarrow> string option \<Rightarrow> string row" where
  "build_row i checkout = (\<lambda>col.
     if col = ''id'' then Some i else if col = ''origin'' then Some ''origin''
     else if col = ''checkout_id'' then checkout else None)"

definition test_row :: "string \<Rightarrow> string option \<Rightarrow> string row" where
  "test_row i build = (\<lambda>col.
     if col = ''id'' then Some i else if col = ''origin'' then Some ''origin''
     else if col = ''build_id'' then build else None)"

definition document :: "(string \<times> string row list) list \<Rightarrow> string row report" where
  "document ls = \<lparr>doc_version = (4, 0), lists = ls\<rparr>"

section \<open>The chunked output of dump\_iter and query\_iter\<close>

text \<open>
  What a generator hands to its consumer: the documents it yields, in order, ended by
  the exception it raises, if it raises one.
\<close>

datatype 'o gen_item = Yield "'o report" | Raise error

text \<open>
  The two assertions in front of every \<^verbatim>\<open>yield data\<close>:
  \<^verbatim>\<open>assert self.io.is_compatible_exactly(data)\<close> and
  \<^verbatim>\<open>assert LIGHT_ASSERTS or self.io.is_valid_exactly(data)\<close>. \<open>rest\<close> is what the
  generator does after the consumer resumes it.
\<close>

definition yield_report ::
  "('o, 'v) schema \<Rightarrow> 'o report \<Rightarrow> 'o gen_item list \<Rightarrow> 'o gen_item list" where
  "yield_report S data rest =
     (if \<not> is_compatible_exactly (io S) data then [Raise AssertionError]
      else if \<not> (LIGHT_ASSERTS S \<or> is_valid_exactly (io S) data) then [Raise AssertionError]
      else Yield data # rest)"

text \<open>
  The loop that \<open>dump_iter\<close> (lines 515-548) and \<open>query_iter\<close> (lines 675-720) share word for
  word. \<open>fetch name\<close> is what the loop gets for one table: \<open>None\<close> where \<open>query_iter\<close>
  skips the table (\<^verbatim>\<open>continue\<close>), else the objects that \<^verbatim>\<open>unpack_iter\<close> gives for the
  executed statement, or the exception raised on the way.

  \<open>iter_tables\<close> is the outer loop from a table on, with the running \<open>obj_num\<close> and
  \<open>data\<close>, and after the last table the final \<^verbatim>\<open>if obj_num: ... yield data\<close>.
  \<open>iter_objs\<close> is the inner loop over the objects of one table; \<open>obj_list\<close> is the
  variable of the same name, \<open>None\<close> until the table has an object in the current
  document. The list \<open>obj_list\<close> is the one stored in \<open>data[table_name]\<close>, so appending to
  it changes the document.
\<close>

fun iter_tables ::
    "('o, 'v) schema \<Rightarrow> (string \<Rightarrow> (error + 'o list) option) \<Rightarrow> nat \<Rightarrow> string list
       \<Rightarrow> nat \<Rightarrow> 'o report \<Rightarrow> 'o gen_item list"
  and iter_objs ::
    "('o, 'v) schema \<Rightarrow> (string \<Rightarrow> (error + 'o list) option) \<Rightarrow> nat \<Rightarrow> string list
       \<Rightarrow> string \<Rightarrow> 'o list \<Rightarrow> 'o list option \<Rightarrow> nat \<Rightarrow> 'o report \<Rightarrow> 'o gen_item list"
where
  "iter_tables S fetch objects_per_report [] obj_num data =
     (if obj_num \<noteq> 0 then yield_report S data [] else [])"
| "iter_tables S fetch objects_per_report (table_name # rest) obj_num data =
     (case fetch table_name of
        None \<Rightarrow> iter_tables S fetch objects_per_report rest obj_num data
      | Some (Inl exc) \<Rightarrow> [Raise exc]
      | Some (Inr objs) \<Rightarrow>
          iter_objs S fetch objects_per_report rest table_name objs None obj_num data)"
| "iter_objs S fetch objects_per_report rest table_name [] obj_list obj_num data =
     iter_tables S fetch objects_per_report rest obj_num data"
| "iter_objs S fetch objects_per_report rest table_name (obj # objs) obj_list obj_num data =
     (let data1 = (case obj_list of
                     None \<Rightarrow> data\<lparr>lists := AList.update table_name [] (lists data)\<rparr>
                   | Some l \<Rightarrow> data);
          obj_list1 = (case obj_list of None \<Rightarrow> [] | Some l \<Rightarrow> l) @ [obj];
          data2 = data1\<lparr>lists := AList.update table_name obj_list1 (lists data1)\<rparr>;
          obj_num1 = obj_num + 1
      in if objects_per_report \<noteq> 0 \<and> obj_num1 \<ge> objects_per_report
         then yield_report S data2
                (iter_objs S fetch objects_per_report rest table_name objs None 0 (io_new (io S)))
         else iter_objs S fetch objects_per_report rest table_name objs (Some obj_list1)
                obj_num1 data2)"

text \<open>
  \<open>dump_iter\<close> (lines 476-548): every table of \<^verbatim>\<open>self.TABLES\<close>, in order, with the
  rows of its dump statement for \<^verbatim>\<open>after.get(table_name)\<close> and
  \<^verbatim>\<open>until.get(table_name)\<close>, unpacked.
\<close>

definition dump_fetch ::
  "('o, 'v) schema \<Rightarrow> bool \<Rightarrow> (string \<Rightarrow> datetime option) \<Rightarrow> (string \<Rightarrow> datetime option)
     \<Rightarrow> 'v database \<Rightarrow> string \<Rightarrow> (error + 'o list) option" where
  "dump_fetch S with_metadata after until db table_name =
     (case map_of (TABLES S) table_name of
        None \<Rightarrow> Some (Inl (KeyError table_name))
      | Some table_schema \<Rightarrow>
          (case dump_select S table_schema table_name with_metadata
                  (after table_name) (until table_name) db of
             Inl exc \<Rightarrow> Some (Inl exc)
           | Inr rows \<Rightarrow> Some (Inr (unpack_iter S table_schema rows with_metadata))))"

definition dump_iter ::
  "('o, 'v) schema \<Rightarrow> nat \<Rightarrow> bool \<Rightarrow> (string \<Rightarrow> datetime option)
     \<Rightarrow> (string \<Rightarrow> datetime option) \<Rightarrow> 'v connection \<Rightarrow> 'o gen_item list" where
  "dump_iter S objects_per_report with_metadata after until c =
     iter_tables S (dump_fetch S with_metadata after until (tables c)) objects_per_report
       (map fst (TABLES S)) 0 (io_new (io S))"

text \<open>The objects of a document: those of one list, and the number of all of them.\<close>

definition objects_of :: "'o report \<Rightarrow> string \<Rightarrow> 'o list" where
  "objects_of data name = (case map_of (lists data) name of None \<Rightarrow> [] | Some objs \<Rightarrow> objs)"

definition object_count :: "'o report \<Rightarrow> nat" where
  "object_count data = sum_list (map (\<lambda>(name, objs). length objs) (lists data))"

text \<open>The documents a generator yields, and whether it ends without an exception.\<close>

fun yielded :: "'o gen_item list \<Rightarrow> 'o report list" where
  "yielded [] = []"
| "yielded (Yield data # items) = data # yielded items"
| "yielded (Raise exc # items) = yielded items"

fun returns :: "'o gen_item list \<Rightarrow> bool" where
  "returns [] = True"
| "returns (Yield data # items) = returns items"
| "returns (Raise exc # items) = False"

section \<open>Chunks of a stream of objects\<close>

text \<open>
  The stream of objects that the loop goes through, each with the name of its table:
  for the tables in order, the objects fetched for each.
\<close>

definition fetched :: "(string \<Rightarrow> (error + 'o list) option) \<Rightarrow> string \<Rightarrow> 'o list" where
  "fetched fetch name = (case fetch name of Some (Inr objs) \<Rightarrow> objs | _ \<Rightarrow> [])"

definition stream :: "(string \<Rightarrow> (error + 'o list) option) \<Rightarrow> string list \<Rightarrow> (string \<times> 'o) list" where
  "stream fetch names = concat (map (\<lambda>name. map (Pair name) (fetched fetch name)) names)"

text \<open>
  Cutting a stream after every \<open>n\<close>-th element (never, for \<open>n = 0\<close>), \<open>cur\<close> being the
  elements since the last cut; what is left at the end is a chunk if it is not empty.
\<close>

fun chunks :: "nat \<Rightarrow> 'a list \<Rightarrow> 'a list \<Rightarrow> 'a list list" where
  "chunks n cur [] = (if cur = [] then [] else [cur])"
| "chunks n cur (x # xs) =
     (if n \<noteq> 0 \<and> n \<le> length cur + 1 then (cur @ [x]) # chunks n [] xs
      else chunks n (cur @ [x]) xs)"

text \<open>The document that holds a chunk: each object appended to the list of its table.\<close>

definition add_object :: "(string \<times> 'o list) list \<Rightarrow> string \<times> 'o \<Rightarrow> (string \<times> 'o list) list" where
  "add_object ls x =
     AList.update (fst x) ((case map_of ls (fst x) of None \<Rightarrow> [] | Some objs \<Rightarrow> objs) @ [snd x]) ls"

definition report_of :: "'o io_schema \<Rightarrow> (string \<times> 'o) list \<Rightarrow> 'o report" where
  "report_of V xs = \<lparr>doc_version = io_version V, lists = foldl add_object [] xs\<rparr>"

text \<open>A document passes the two assertions in front of a \<^verbatim>\<open>yield\<close>.\<close>

definition passes :: "('o, 'v) schema \<Rightarrow> 'o report \<Rightarrow> bool" where
  "passes S data =
     (is_compatible_exactly (io S) data \<and> (LIGHT_ASSERTS S \<or> is_valid_exactly (io S) data))"

section \<open>Python strings\<close>

text \<open>\<^verbatim>\<open>sep.join(strings)\<close>.\<close>

fun join :: "string \<Rightarrow> string list \<Rightarrow> string" where
  "join sep [] = []"
| "join sep [s] = s"
| "join sep (s # t # ts) = s @ sep @ join sep (t # ts)"

text \<open>
  \<^verbatim>\<open>text.splitlines(True)\<close> for a text whose only line boundaries are newline
  characters, as in the statements built here.
\<close>

fun splitlines :: "string \<Rightarrow> string list" where
  "splitlines [] = []"
| "splitlines (c # cs) =
     (if c = CHR 0x0A then [c] # splitlines cs
      else (case splitlines cs of [] \<Rightarrow> [[c]] | l # ls \<Rightarrow> (c # l) # ls))"

text \<open>The ASCII characters that \<^verbatim>\<open>str.strip()\<close> removes.\<close>

definition is_space :: "char \<Rightarrow> bool" where
  "is_space c = (c \<in> {CHR 0x09, CHR 0x0A, CHR 0x0B, CHR 0x0C, CHR 0x0D,
                        CHR 0x1C, CHR 0x1D, CHR 0x1E, CHR 0x1F, CHR 0x20})"

text \<open>
  \<^verbatim>\<open>textwrap.indent(text, prefix)\<close>: the prefix in front of every line that does not
  consist of whitespace only.
\<close>

definition indent :: "string \<Rightarrow> string \<Rightarrow> string" where
  "indent text prefix =
     concat (map (\<lambda>line. if \<exists>c \<in> set line. \<not> is_space c then prefix @ line else line)
                 (splitlines text))"

section \<open>The ID selectors of query\_iter\<close>

text \<open>
  \<open>query_iter\<close> keeps, for every object list, the list \<^verbatim>\<open>selects\<close> of the
  \<^verbatim>\<open>SELECT\<close> statements that give the IDs to fetch. There are three shapes of them, and
  a statement can hold earlier ones (joined with \<^verbatim>\<open>UNION\<close>) as a subquery. The model
  keeps a statement as the term below; \<open>select_sql\<close> is its text, put together as the
  source puts it together.

  \<^item> \<open>Values query_fields n\<close> (lines 604-611): the \<open>n\<close> ID tuples given by the caller.
  \<^item> \<open>Parents child_list_name obj_name query_fields child_selects child_fields\<close>
    (lines 622-637): the IDs of the parents of the children that \<open>child_selects\<close> select;
    \<open>query_fields\<close> and \<open>child_selects\<close> are \<^verbatim>\<open>query.fields\<close> and
    \<^verbatim>\<open>child_query.selects\<close> of the source.
  \<^item> \<open>Children child_list_name obj_list_name obj_name child_fields query_selects
    query_fields\<close> (lines 651-666): the IDs of the children of the objects that
    \<open>query_selects\<close> select.
\<close>

datatype sel =
    Values "string list" nat
  | Parents string string "string list" "sel list" "string list"
  | Children string string string "string list" "sel list" "string list"

fun select_sql :: "sel \<Rightarrow> string" where
  "select_sql (Values query_fields n) =
     ''WITH ids('' @ join '', '' query_fields @ '') AS (VALUES'' @ [CHR 0x0A] @
     join ('','' @ [CHR 0x0A])
       (replicate n
          (''    (?'' @ concat (replicate (length query_fields - 1) '', ?'') @ '')'')) @
     [CHR 0x0A] @ '') SELECT * FROM ids'' @ [CHR 0x0A]"
| "select_sql (Parents child_list_name obj_name query_fields child_selects child_fields) =
     ''SELECT '' @
     join '', ''
       (map (\<lambda>f. child_list_name @ ''.'' @ obj_name @ ''_'' @ f @ '' AS '' @ f) query_fields) @
     '' FROM '' @ child_list_name @ '' '' @
     ''INNER JOIN ('' @ [CHR 0x0A] @
     indent (join (''UNION'' @ [CHR 0x0A]) (map select_sql child_selects)) ''    '' @
     '') AS ids USING('' @ join '', '' child_fields @ '')'' @ [CHR 0x0A]"
| "select_sql (Children child_list_name obj_list_name obj_name child_fields query_selects
       query_fields) =
     ''SELECT '' @
     join '', '' (map (\<lambda>f. child_list_name @ ''.'' @ f @ '' AS '' @ f) child_fields) @
     '' FROM '' @ child_list_name @ '' '' @
     ''INNER JOIN ('' @ [CHR 0x0A] @
     indent (join (''UNION'' @ [CHR 0x0A]) (map select_sql query_selects)) ''    '' @
     '') AS '' @ obj_list_name @ '' ON '' @
     join '' AND ''
       (map (\<lambda>f. child_list_name @ ''.'' @ obj_name @ ''_'' @ f @ '' = '' @
                  obj_list_name @ ''.'' @ f) query_fields) @
     [CHR 0x0A]"

text \<open>
  \<^verbatim>\<open>Query = namedtuple('Query', 'selects params fields')\<close> (the field \<open>fields\<close> is
  \<open>fields'\<close> here, \<open>fields\<close> being taken), and
  \<^verbatim>\<open>obj_list_queries\<close>, the dictionary of the queries by object list name, in the order
  of \<^verbatim>\<open>self.io.id_fields\<close>.
\<close>

record 'v query =
  selects :: "sel list"
  params :: "'v list"
  fields' :: "string list"

type_synonym 'v queries = "(string \<times> 'v query) list"

text \<open>
  Lines 592-612: an empty query for every object list of the I/O schema, then, where
  \<^verbatim>\<open>ids.get(obj_list_name, [])\<close> is not empty, the \<^verbatim>\<open>VALUES\<close> statement with one row of
  placeholders per ID and the values of all the IDs, chained, as its parameters.
\<close>

definition id_queries :: "'o io_schema \<Rightarrow> (string \<Rightarrow> 'v list list option) \<Rightarrow> 'v queries" where
  "id_queries V ids =
     map (\<lambda>(obj_list_name, id_fields).
            (obj_list_name,
             (let obj_list_ids = (case ids obj_list_name of None \<Rightarrow> [] | Some l \<Rightarrow> l)
              in if obj_list_ids \<noteq> []
                 then \<lparr>selects = [Values id_fields (length obj_list_ids)],
                       params = concat obj_list_ids, fields' = id_fields\<rparr>
                 else \<lparr>selects = [], params = [], fields' = id_fields\<rparr>)))
         (id_fields V)"

text \<open>
  Lines 622-638 of \<open>add_parents\<close>: \<^verbatim>\<open>query.selects.append(...)\<close> with the statement
  that selects the parents of the children selected by \<^verbatim>\<open>child_query.selects\<close>, and
  \<^verbatim>\<open>query.params.extend(child_query.params)\<close>. \<^verbatim>\<open>obj_name\<close> is
  \<^verbatim>\<open>obj_list_name[:-1]\<close>.
\<close>

definition append_parents :: "string \<Rightarrow> string \<Rightarrow> 'v query \<Rightarrow> 'v query \<Rightarrow> 'v query" where
  "append_parents obj_list_name child_list_name child_query query =
     query\<lparr>selects := selects query @
               [Parents child_list_name (butlast obj_list_name) (fields' query)
                  (selects child_query) (fields' child_query)],
           params := params query @ params child_query\<rparr>"

text \<open>
  Lines 651-667 of \<open>add_children\<close>: \<^verbatim>\<open>child_query.selects.append(...)\<close> with the
  statement that selects the children of the objects selected by \<^verbatim>\<open>query.selects\<close>,
  and \<^verbatim>\<open>child_query.params.extend(query.params)\<close>.
\<close>

definition append_children :: "string \<Rightarrow> string \<Rightarrow> 'v query \<Rightarrow> 'v query \<Rightarrow> 'v query" where
  "append_children obj_list_name child_list_name query child_query =
     child_query\<lparr>selects := selects child_query @
                     [Children child_list_name obj_list_name (butlast obj_list_name)
                        (fields' child_query) (selects query) (fields' query)],
                 params := params child_query @ params query\<rparr>"

text \<open>
  \<open>add_parents\<close> (lines 614-638). The first argument is the recursion depth that is left;
  Python raises \<^verbatim>\<open>RecursionError\<close> when it is used up. \<open>add_parents_loop\<close> is the
  \<^verbatim>\<open>for child_list_name in self.io.graph[obj_list_name]\<close> loop from a child on. The
  queries are changed in place, so \<^verbatim>\<open>query\<close> and \<^verbatim>\<open>child_query\<close> are read from the
  current dictionary.
\<close>

fun add_parents ::
    "nat \<Rightarrow> (string \<times> string list) list \<Rightarrow> string \<Rightarrow> 'v queries \<Rightarrow> error + 'v queries"
  and add_parents_loop ::
    "nat \<Rightarrow> (string \<times> string list) list \<Rightarrow> string \<Rightarrow> string list \<Rightarrow> 'v queries
       \<Rightarrow> error + 'v queries"
where
  "add_parents 0 G obj_list_name qs = Inl RecursionError"
| "add_parents (Suc depth) G obj_list_name qs =
     (case map_of qs obj_list_name of
        None \<Rightarrow> Inl (KeyError obj_list_name)
      | Some query \<Rightarrow>
          (case map_of G obj_list_name of
             None \<Rightarrow> Inl (KeyError obj_list_name)
           | Some child_list_names \<Rightarrow> add_parents_loop depth G obj_list_name child_list_names qs))"
| "add_parents_loop depth G obj_list_name [] qs = Inr qs"
| "add_parents_loop depth G obj_list_name (child_list_name # rest) qs =
     (case add_parents depth G child_list_name qs of
        Inl exc \<Rightarrow> Inl exc
      | Inr qs1 \<Rightarrow>
          (case map_of qs1 child_list_name of
             None \<Rightarrow> Inl (KeyError child_list_name)
           | Some child_query \<Rightarrow>
               (case map_of qs1 obj_list_name of
                  None \<Rightarrow> Inl (KeyError obj_list_name)
                | Some query \<Rightarrow>
                    add_parents_loop depth G obj_list_name rest
                      (if selects child_query \<noteq> []
                       then AList.update obj_list_name
                              (append_parents obj_list_name child_list_name child_query query) qs1
                       else qs1))))"

text \<open>\<open>add_children\<close> (lines 644-668), in the same way.\<close>

fun add_children ::
    "nat \<Rightarrow> (string \<times> string list) list \<Rightarrow> string \<Rightarrow> 'v queries \<Rightarrow> error + 'v queries"
  and add_children_loop ::
    "nat \<Rightarrow> (string \<times> string list) list \<Rightarrow> string \<Rightarrow> string list \<Rightarrow> 'v queries
       \<Rightarrow> error + 'v queries"
where
  "add_children 0 G obj_list_name qs = Inl RecursionError"
| "add_children (Suc depth) G obj_list_name qs =
     (case map_of qs obj_list_name of
        None \<Rightarrow> Inl (KeyError obj_list_name)
      | Some query \<Rightarrow>
          (case map_of G obj_list_name of
             None \<Rightarrow> Inl (KeyError obj_list_name)
           | Some child_list_names \<Rightarrow> add_children_loop depth G obj_list_name child_list_names qs))"
| "add_children_loop depth G obj_list_name [] qs = Inr qs"
| "add_children_loop depth G obj_list_name (child_list_name # rest) qs =
     (case map_of qs obj_list_name of
        None \<Rightarrow> Inl (KeyError obj_list_name)
      | Some query \<Rightarrow>
          (case (if selects query \<noteq> []
                 then (case map_of qs child_list_name of
                         None \<Rightarrow> Inl (KeyError child_list_name)
                       | Some child_query \<Rightarrow>
                           Inr (AList.update child_list_name
                                  (append_children obj_list_name child_list_name query
                                     child_query) qs))
                 else Inr qs) of
             Inl exc \<Rightarrow> Inl exc
           | Inr qs1 \<Rightarrow>
               (case add_children depth G child_list_name qs1 of
                  Inl exc \<Rightarrow> Inl exc
                | Inr qs2 \<Rightarrow> add_children_loop depth G obj_list_name rest qs2)))"

text \<open>
  \<^verbatim>\<open>for obj_list_name in self.io.graph[""]: add_parents(obj_list_name)\<close> (lines 640-642),
  and the same for \<open>add_children\<close> (lines 670-672): \<open>walk\<close> is one of the two.
\<close>

fun from_roots ::
  "(string \<Rightarrow> 'v queries \<Rightarrow> error + 'v queries) \<Rightarrow> string list \<Rightarrow> 'v queries
     \<Rightarrow> error + 'v queries" where
  "from_roots walk [] qs = Inr qs"
| "from_roots walk (obj_list_name # rest) qs =
     (case walk obj_list_name qs of
        Inl exc \<Rightarrow> Inl exc
      | Inr qs1 \<Rightarrow> from_roots walk rest qs1)"

definition expand ::
  "(string \<times> string list) list \<Rightarrow> (string \<Rightarrow> 'v queries \<Rightarrow> error + 'v queries) \<Rightarrow> bool
     \<Rightarrow> 'v queries \<Rightarrow> error + 'v queries" where
  "expand G walk requested qs =
     (if requested
      then (case map_of G [] of
              None \<Rightarrow> Inl (KeyError [])
            | Some roots \<Rightarrow> from_roots walk roots qs)
      else Inr qs)"

text \<open>The queries after lines 592-672.\<close>

definition obj_list_queries ::
  "nat \<Rightarrow> 'o io_schema \<Rightarrow> (string \<Rightarrow> 'v list list option) \<Rightarrow> bool \<Rightarrow> bool
     \<Rightarrow> error + 'v queries" where
  "obj_list_queries depth V ids children parents =
     (case expand (graph V) (add_parents depth (graph V)) parents (id_queries V ids) of
        Inl exc \<Rightarrow> Inl exc
      | Inr qs \<Rightarrow> expand (graph V) (add_children depth (graph V)) children qs)"

text \<open>
  What one round of the loop of \<open>add_parents\<close> makes of \<^verbatim>\<open>query\<close>, given the child's
  query as it is then (\<^verbatim>\<open>if child_query.selects: ...\<close>), and what one round of the
  loop of \<open>add_children\<close> makes of \<^verbatim>\<open>child_query\<close> (\<^verbatim>\<open>if query.selects: ...\<close>).
\<close>

definition expanded_parents :: "string \<Rightarrow> string \<Rightarrow> 'v query \<Rightarrow> 'v query \<Rightarrow> 'v query" where
  "expanded_parents obj_list_name child_list_name child_query query =
     (if selects child_query = [] then query
      else append_parents obj_list_name child_list_name child_query query)"


section \<open>What the engine selects\<close>

text \<open>
  The engine's reading of the ID selectors: the ID tuples that a statement selects from
  the tables, in some order, with their repetitions. The values of the parameters are
  bound to the placeholders in the order of the text, so a statement takes its
  parameters from the front of the list and leaves the rest to the statements after
  it. Two values are joined when they are equal and not NULL.

  \<^item> \<^verbatim>\<open>WITH ids(...) AS (VALUES (?, ...), ...) SELECT * FROM ids\<close>: the rows of the
    parameters.
  \<^item> \<^verbatim>\<open>SELECT child.obj_f AS f, ... FROM child INNER JOIN (...) AS ids USING(g, ...)\<close>:
    for every row of the child table and every selected tuple equal to its columns
    \<open>g, ...\<close>, the row's columns \<open>obj_f, ...\<close>.
  \<^item> \<^verbatim>\<open>SELECT child.g AS g, ... FROM child INNER JOIN (...) AS objs ON child.obj_f =
    objs.f AND ...\<close>: for every row of the child table and every selected tuple equal to
    its columns \<open>obj_f, ...\<close>, the row's columns \<open>g, ...\<close>.
  \<^item> Statements joined by \<^verbatim>\<open>UNION\<close>: the tuples of all of them, each once. A single
    statement is not a \<^verbatim>\<open>UNION\<close> and keeps its repetitions.
\<close>

definition joins :: "'v option list \<Rightarrow> 'v option list \<Rightarrow> bool" where
  "joins key tuple = (key = tuple \<and> None \<notin> set key)"

definition table_rows :: "'v database \<Rightarrow> string \<Rightarrow> 'v row list" where
  "table_rows db name = (case db name of None \<Rightarrow> [] | Some t \<Rightarrow> tbl_rows t)"

definition join_rows ::
  "'v row list \<Rightarrow> string list \<Rightarrow> 'v option list list \<Rightarrow> ('v row \<Rightarrow> 'a) \<Rightarrow> 'a list" where
  "join_rows rows on_columns tuples result =
     concat (map (\<lambda>r. map (\<lambda>tuple. result r) (filter (joins (map r on_columns)) tuples)) rows)"

fun values_rows :: "nat \<Rightarrow> nat \<Rightarrow> 'v list \<Rightarrow> 'v option list list" where
  "values_rows width 0 ps = []"
| "values_rows width (Suc n) ps = map Some (take width ps) # values_rows width n (drop width ps)"

fun placeholders :: "sel \<Rightarrow> nat" where
  "placeholders (Values query_fields n) = n * (1 + (length query_fields - 1))"
| "placeholders (Parents child_list_name obj_name query_fields child_selects child_fields) =
     sum_list (map placeholders child_selects)"
| "placeholders (Children child_list_name obj_list_name obj_name child_fields query_selects
       query_fields) = sum_list (map placeholders query_selects)"

fun select_ids :: "'v database \<Rightarrow> sel \<Rightarrow> 'v list \<Rightarrow> 'v option list list"
  and union_ids :: "'v database \<Rightarrow> sel list \<Rightarrow> 'v list \<Rightarrow> 'v option list list list"
where
  "select_ids db (Values query_fields n) ps = values_rows (1 + (length query_fields - 1)) n ps"
| "select_ids db (Parents child_list_name obj_name query_fields child_selects child_fields) ps =
     (let found = union_ids db child_selects ps;
          tuples = (if length child_selects = 1 then concat found else remdups (concat found))
      in join_rows (table_rows db child_list_name) child_fields tuples
           (\<lambda>r. map (\<lambda>f. r (obj_name @ ''_'' @ f)) query_fields))"
| "select_ids db (Children child_list_name obj_list_name obj_name child_fields query_selects
       query_fields) ps =
     (let found = union_ids db query_selects ps;
          tuples = (if length query_selects = 1 then concat found else remdups (concat found))
      in join_rows (table_rows db child_list_name)
           (map (\<lambda>f. obj_name @ ''_'' @ f) query_fields) tuples
           (\<lambda>r. map r child_fields))"
| "union_ids db [] ps = []"
| "union_ids db (s # ss) ps =
     select_ids db s (take (placeholders s) ps) # union_ids db ss (drop (placeholders s) ps)"

text \<open>The tables a statement names.\<close>

fun select_tables :: "sel \<Rightarrow> string list" where
  "select_tables (Values query_fields n) = []"
| "select_tables (Parents child_list_name obj_name query_fields child_selects child_fields) =
     child_list_name # concat (map select_tables child_selects)"
| "select_tables (Children child_list_name obj_list_name obj_name child_fields query_selects
       query_fields) = child_list_name # concat (map select_tables query_selects)"

text \<open>
  The statement that fetches the objects of one list (lines 684-696), as text and as
  executed with \<^verbatim>\<open>query.params\<close>: the rows of the table that join one of the selected ID
  tuples on the ID fields, reduced to the selected columns. Preparing the statement
  raises \<^verbatim>\<open>OperationalError\<close> when a table it names does not exist; binding the
  parameters then raises \<^verbatim>\<open>ProgrammingError\<close> when their number is not the number of
  placeholders.
\<close>

definition fetch_sql :: "string list \<Rightarrow> string \<Rightarrow> 'v query \<Rightarrow> string" where
  "fetch_sql column_list obj_list_name query =
     ''SELECT '' @ join '', '' column_list @ [CHR 0x0A] @
     ''FROM '' @ obj_list_name @ '' INNER JOIN ('' @ [CHR 0x0A] @
     indent (join (''UNION'' @ [CHR 0x0A]) (map select_sql (selects query))) ''    '' @
     '') AS ids USING('' @ join '', '' (fields' query) @ '')'' @ [CHR 0x0A]"

definition only_columns :: "string list \<Rightarrow> 'v row \<Rightarrow> 'v row" where
  "only_columns column_list r = (\<lambda>col. if col \<in> set column_list then r col else None)"

definition fetch_rows ::
  "'v database \<Rightarrow> string list \<Rightarrow> string \<Rightarrow> 'v query \<Rightarrow> error + 'v row list" where
  "fetch_rows db column_list obj_list_name query =
     (case filter (\<lambda>name. db name = None)
             (obj_list_name # concat (map select_tables (selects query))) of
        name # names \<Rightarrow> Inl (OperationalError (''no such table: '' @ name))
      | [] \<Rightarrow>
          if length (params query) \<noteq> sum_list (map placeholders (selects query))
          then Inl ProgrammingError
          else (let found = union_ids db (selects query) (params query);
                    tuples = (if length (selects query) = 1 then concat found
                              else remdups (concat found))
                in Inr (join_rows (table_rows db obj_list_name) (fields' query) tuples
                          (only_columns column_list))))"

section \<open>query\_iter (v04\_00.Schema.query\_iter)\<close>

text \<open>
  What the loop of lines 680-715 gets for one object list: nothing where the query has
  no statement (\<^verbatim>\<open>continue\<close>), else the rows of the fetch statement, unpacked.
\<close>

definition query_fetch ::
  "('o, 'v) schema \<Rightarrow> bool \<Rightarrow> 'v database \<Rightarrow> 'v queries \<Rightarrow> string
     \<Rightarrow> (error + 'o list) option" where
  "query_fetch S with_metadata db qs obj_list_name =
     (case map_of qs obj_list_name of
        None \<Rightarrow> None
      | Some query \<Rightarrow>
          if selects query = [] then None
          else (case map_of (TABLES S) obj_list_name of
                  None \<Rightarrow> Some (Inl (KeyError obj_list_name))
                | Some table_schema \<Rightarrow>
                    (case fetch_rows db (column_names S table_schema with_metadata)
                            obj_list_name query of
                       Inl exc \<Rightarrow> Some (Inl exc)
                     | Inr rows \<Rightarrow> Some (Inr (unpack_iter S table_schema rows with_metadata)))))"

text \<open>
  \<open>query_iter\<close> (lines 552-720). The first argument is the recursion depth available to
  \<open>add_parents\<close> and \<open>add_children\<close>.
\<close>

definition query_iter ::
  "nat \<Rightarrow> ('o, 'v) schema \<Rightarrow> (string \<Rightarrow> 'v list list option) \<Rightarrow> bool \<Rightarrow> bool \<Rightarrow> nat \<Rightarrow> bool
     \<Rightarrow> 'v connection \<Rightarrow> 'o gen_item list" where
  "query_iter depth S ids children parents objects_per_report with_metadata c =
     (case obj_list_queries depth (io S) ids children parents of
        Inl exc \<Rightarrow> [Raise exc]
      | Inr qs \<Rightarrow>
          iter_tables S (query_fetch S with_metadata (tables c) qs) objects_per_report
            (map fst qs) 0 (io_new (io S)))"

section \<open>What chunking promises\<close>

text \<open>
  The objects of a table that \<open>dump_iter\<close> goes through, and those of an object list that
  \<open>query_iter\<close> goes through (none where the list is skipped).
\<close>

definition dumped ::
  "('o, 'v) schema \<Rightarrow> bool \<Rightarrow> (string \<Rightarrow> datetime option) \<Rightarrow> (string \<Rightarrow> datetime option)
     \<Rightarrow> 'v connection \<Rightarrow> string \<Rightarrow> 'o list" where
  "dumped S with_metadata after until c name =
     fetched (dump_fetch S with_metadata after until (tables c)) name"

definition queried ::
  "nat \<Rightarrow> ('o, 'v) schema \<Rightarrow> (string \<Rightarrow> 'v list list option) \<Rightarrow> bool \<Rightarrow> bool \<Rightarrow> bool
     \<Rightarrow> 'v connection \<Rightarrow> string \<Rightarrow> 'o list" where
  "queried depth S ids children parents with_metadata c name =
     (case obj_list_queries depth (io S) ids children parents of
        Inl exc \<Rightarrow> []
      | Inr qs \<Rightarrow> fetched (query_fetch S with_metadata (tables c) qs) name)"

text \<open>
  The documents \<open>docs\<close> are the objects \<open>objs name\<close> of the lists \<open>names\<close>, \<open>k\<close> in all, in
  chunks of \<open>n\<close>: for \<open>n > 0\<close> there are \<open>ceil(k / n)\<close> documents, each but the last with
  exactly \<open>n\<close> objects and none with more; for \<open>n = 0\<close> there is one document, or none
  when there is no object; no document is empty; and the objects of a list in the
  documents, one document after the other, are the objects of that list.
\<close>

definition chunked :: "nat \<Rightarrow> 'o report list \<Rightarrow> (string \<Rightarrow> 'o list) \<Rightarrow> string list \<Rightarrow> bool" where
  "chunked n docs objs names =
     (let k = sum_list (map (\<lambda>name. length (objs name)) names)
      in (0 < n \<longrightarrow> length docs = (k + n - 1) div n
                   \<and> (\<forall>d \<in> set (butlast docs). object_count d = n)
                   \<and> (\<forall>d \<in> set docs. object_count d \<le> n))
       \<and> (n = 0 \<longrightarrow> length docs = (if k = 0 then 0 else 1))
       \<and> (\<forall>d \<in> set docs. 0 < object_count d)
       \<and> (\<forall>name. concat (map (\<lambda>d. objects_of d name) docs) =
                     (if name \<in> set names then objs name else [])))"

text \<open>An example database of the v4.0 schema: two checkouts, a build, and two tests.\<close>

definition example_db :: "string database" where
  "example_db = Map.empty
     (''checkouts'' \<mapsto> \<lparr>tbl_schema = checkouts_args,
         tbl_rows = [checkout_row ''origin:c1'' ''first'', checkout_row ''origin:c2'' ''second'']\<rparr>,
      ''builds'' \<mapsto> \<lparr>tbl_schema = builds_args,
         tbl_rows = [build_row ''origin:b1'' (Some ''origin:c1'')]\<rparr>,
      ''tests'' \<mapsto> \<lparr>tbl_schema = tests_args,
         tbl_rows = [test_row ''origin:t1'' (Some ''origin:b1''),
                     test_row ''origin:t2'' (Some ''origin:b1'')]\<rparr>)"

definition example_connection :: "string connection" where
  "example_connection =
     \<lparr>load_prio_db = True, user_version = 4000, tables = example_db, durable = example_db\<rparr>"

text \<open>
  The v4.0 schema class with \<open>LIGHT_ASSERTS\<close> on and every document compatible, for the
  examples.
\<close>

definition example_schema :: "(string row, string) schema" where
  "example_schema = Schema_v04_00 True (\<lambda>d. True) (\<lambda>d. True)"

section \<open>The object-oriented queries (OO\_QUERIES and \_oo\_query\_render)\<close>

text \<open>
  The \<^verbatim>\<open>statement\<close> of every entry of \<^verbatim>\<open>OO_QUERIES\<close> of v04\_00 (lines 235-431),
  character by character; \<open>CHR 0x0A\<close> is the newline, \<open>CHR 0x22\<close> the double quote and
  \<open>CHR 0x27\<close> the single quote.
\<close>

definition revision_statement_v04_00 :: string where
  "revision_statement_v04_00 =
     ''SELECT'' @ [CHR 0x0A] @
     ''    git_commit_hash,'' @ [CHR 0x0A] @
     ''    patchset_hash,'' @ [CHR 0x0A] @
     ''    patchset_files,'' @ [CHR 0x0A] @
     ''    git_commit_name'' @ [CHR 0x0A] @
     ''FROM checkouts'' @ [CHR 0x0A] @
     ''GROUP BY git_commit_hash, patchset_hash''"

definition checkout_statement_v04_00 :: string where
  "checkout_statement_v04_00 =
     ''SELECT'' @ [CHR 0x0A] @
     ''    id,'' @ [CHR 0x0A] @
     ''    git_commit_hash,'' @ [CHR 0x0A] @
     ''    NULL AS git_commit_tags,'' @ [CHR 0x0A] @
     ''    NULL AS git_commit_message,'' @ [CHR 0x0A] @
     ''    patchset_hash,'' @ [CHR 0x0A] @
     ''    origin,'' @ [CHR 0x0A] @
     ''    git_repository_url,'' @ [CHR 0x0A] @
     ''    git_repository_branch,'' @ [CHR 0x0A] @
     ''    NULL AS git_repository_branch_tip,'' @ [CHR 0x0A] @
     ''    tree_name,'' @ [CHR 0x0A] @
     ''    message_id,'' @ [CHR 0x0A] @
     ''    start_time,'' @ [CHR 0x0A] @
     ''    log_url,'' @ [CHR 0x0A] @
     ''    comment,'' @ [CHR 0x0A] @
     ''    valid,'' @ [CHR 0x0A] @
     ''    misc'' @ [CHR 0x0A] @
     ''FROM checkouts''"

definition build_statement_v04_00 :: string where
  "build_statement_v04_00 =
     ''SELECT'' @ [CHR 0x0A] @
     ''    id,'' @ [CHR 0x0A] @
     ''    checkout_id,'' @ [CHR 0x0A] @
     ''    origin,'' @ [CHR 0x0A] @
     ''    start_time,'' @ [CHR 0x0A] @
     ''    duration,'' @ [CHR 0x0A] @
     ''    architecture,'' @ [CHR 0x0A] @
     ''    command,'' @ [CHR 0x0A] @
     ''    compiler,'' @ [CHR 0x0A] @
     ''    input_files,'' @ [CHR 0x0A] @
     ''    output_files,'' @ [CHR 0x0A] @
     ''    config_name,'' @ [CHR 0x0A] @
     ''    config_url,'' @ [CHR 0x0A] @
     ''    log_url,'' @ [CHR 0x0A] @
     ''    comment,'' @ [CHR 0x0A] @
     ''    CASE valid'' @ [CHR 0x0A] @
     ''        WHEN TRUE THEN '' @ [CHR 0x27] @ ''PASS'' @ [CHR 0x27] @ [CHR 0x0A] @
     ''        WHEN FALSE THEN '' @ [CHR 0x27] @ ''FAIL'' @ [CHR 0x27] @ [CHR 0x0A] @
     ''        ELSE NULL'' @ [CHR 0x0A] @
     ''    END AS status,'' @ [CHR 0x0A] @
     ''    misc'' @ [CHR 0x0A] @
     ''FROM builds''"

definition test_statement_v04_00 :: string where
  "test_statement_v04_00 =
     ''SELECT'' @ [CHR 0x0A] @
     ''    id,'' @ [CHR 0x0A] @
     ''    build_id,'' @ [CHR 0x0A] @
     ''    origin,'' @ [CHR 0x0A] @
     ''    path,'' @ [CHR 0x0A] @
     ''    '' @ [CHR 0x22] @ ''environment.comment'' @ [CHR 0x22] @
     '' AS environment_comment,'' @ [CHR 0x0A] @
     ''    NULL AS environment_compatible,'' @ [CHR 0x0A] @
     ''    '' @ [CHR 0x22] @ ''environment.misc'' @ [CHR 0x22] @
     '' AS environment_misc,'' @ [CHR 0x0A] @
     ''    log_url,'' @ [CHR 0x0A] @
     ''    status,'' @ [CHR 0x0A] @
     ''    NULL AS number_value,'' @ [CHR 0x0A] @
     ''    NULL AS number_unit,'' @ [CHR 0x0A] @
     ''    NULL AS number_prefix,'' @ [CHR 0x0A] @
     ''    start_time,'' @ [CHR 0x0A] @
     ''    duration,'' @ [CHR 0x0A] @
     ''    output_files,'' @ [CHR 0x0A] @
     ''    comment,'' @ [CHR 0x0A] @
     ''    misc'' @ [CHR 0x0A] @
     ''FROM tests''"

definition issue_statement_v04_00 :: string where
  "issue_statement_v04_00 =
     ''SELECT'' @ [CHR 0x0A] @
     ''    NULL AS id,'' @ [CHR 0x0A] @
     ''    NULL AS origin'' @ [CHR 0x0A] @
     ''WHERE 0''"

definition issue_version_statement_v04_00 :: string where
  "issue_version_statement_v04_00 =
     ''SELECT'' @ [CHR 0x0A] @
     ''    NULL AS id,'' @ [CHR 0x0A] @
     ''    NULL AS version_num,'' @ [CHR 0x0A] @
     ''    NULL AS origin,'' @ [CHR 0x0A] @
     ''    NULL AS report_url,'' @ [CHR 0x0A] @
     ''    NULL AS report_subject,'' @ [CHR 0x0A] @
     ''    NULL AS culprit_code,'' @ [CHR 0x0A] @
     ''    NULL AS culprit_tool,'' @ [CHR 0x0A] @
     ''    NULL AS culprit_harness,'' @ [CHR 0x0A] @
     ''    NULL AS comment,'' @ [CHR 0x0A] @
     ''    NULL AS misc'' @ [CHR 0x0A] @
     ''WHERE 0''"

definition incident_statement_v04_00 :: string where
  "incident_statement_v04_00 =
     ''SELECT'' @ [CHR 0x0A] @
     ''    NULL AS id,'' @ [CHR 0x0A] @
     ''    NULL AS origin,'' @ [CHR 0x0A] @
     ''    NULL AS issue_id,'' @ [CHR 0x0A] @
     ''    NULL AS issue_version_num,'' @ [CHR 0x0A] @
     ''    NULL AS build_id,'' @ [CHR 0x0A] @
     ''    NULL AS test_id,'' @ [CHR 0x0A] @
     ''    NULL AS present,'' @ [CHR 0x0A] @
     ''    NULL AS comment,'' @ [CHR 0x0A] @
     ''    NULL AS misc'' @ [CHR 0x0A] @
     ''WHERE 0''"

text \<open>The three statements that v04\_01 replaces (lines 67-106).\<close>

definition issue_statement_v04_01 :: string where
  "issue_statement_v04_01 =
     ''SELECT'' @ [CHR 0x0A] @
     ''    id,'' @ [CHR 0x0A] @
     ''    origin'' @ [CHR 0x0A] @
     ''FROM issues'' @ [CHR 0x0A] @
     ''GROUP BY id''"

definition issue_version_statement_v04_01 :: string where
  "issue_version_statement_v04_01 =
     ''SELECT'' @ [CHR 0x0A] @
     ''    id,'' @ [CHR 0x0A] @
     ''    version AS version_num,'' @ [CHR 0x0A] @
     ''    origin,'' @ [CHR 0x0A] @
     ''    report_url,'' @ [CHR 0x0A] @
     ''    report_subject,'' @ [CHR 0x0A] @
     ''    '' @ [CHR 0x22] @ ''culprit.code'' @ [CHR 0x22] @ '' AS culprit_code,'' @
     [CHR 0x0A] @
     ''    '' @ [CHR 0x22] @ ''culprit.tool'' @ [CHR 0x22] @ '' AS culprit_tool,'' @
     [CHR 0x0A] @
     ''    '' @ [CHR 0x22] @ ''culprit.harness'' @ [CHR 0x22] @ '' AS culprit_harness,'' @
     [CHR 0x0A] @
     ''    comment,'' @ [CHR 0x0A] @
     ''    misc'' @ [CHR 0x0A] @
     ''FROM issues''"

definition incident_statement_v04_01 :: string where
  "incident_statement_v04_01 =
     ''SELECT'' @ [CHR 0x0A] @
     ''    id,'' @ [CHR 0x0A] @
     ''    origin,'' @ [CHR 0x0A] @
     ''    issue_id,'' @ [CHR 0x0A] @
     ''    issue_version AS issue_version_num,'' @ [CHR 0x0A] @
     ''    build_id,'' @ [CHR 0x0A] @
     ''    test_id,'' @ [CHR 0x0A] @
     ''    present,'' @ [CHR 0x0A] @
     ''    comment,'' @ [CHR 0x0A] @
     ''    misc'' @ [CHR 0x0A] @
     ''FROM incidents''"

text \<open>
  \<^verbatim>\<open>OO_QUERIES\<close> maps the name of an object type to its statement (and to the schema of
  the result, which \<open>_oo_query_render\<close> does not read). In v04\_01 \<^verbatim>\<open>merge_dicts\<close> replaces
  the statements of three of the entries.
\<close>

definition OO_QUERIES_v04_00 :: "(string \<times> string) list" where
  "OO_QUERIES_v04_00 =
     [(''revision'', revision_statement_v04_00),
      (''checkout'', checkout_statement_v04_00),
      (''build'', build_statement_v04_00),
      (''test'', test_statement_v04_00),
      (''issue'', issue_statement_v04_00),
      (''issue_version'', issue_version_statement_v04_00),
      (''incident'', incident_statement_v04_00)]"

definition OO_QUERIES_v04_01 :: "(string \<times> string) list" where
  "OO_QUERIES_v04_01 =
     AList.update ''incident'' incident_statement_v04_01
       (AList.update ''issue_version'' issue_version_statement_v04_01
          (AList.update ''issue'' issue_statement_v04_01 OO_QUERIES_v04_00))"

text \<open>
  What \<open>_oo_query_render\<close> reads of an object type (\<^verbatim>\<open>kcidb.orm.data.Type\<close>): its name,
  the names of its ID fields (the keys of \<^verbatim>\<open>id_field_types\<close>, in order), and for every
  child type the fields of the child that refer to it
  (\<^verbatim>\<open>children[name].ref_fields\<close>).
\<close>

record obj_type =
  type_name :: string
  id_field_types :: "string list"
  children' :: "(string \<times> string list) list"

text \<open>
  A pattern (\<^verbatim>\<open>kcidb.orm.query.Pattern\<close>): the base pattern if there is one, whether the
  pattern matches the children of the base's objects (else their parents), the object type,
  and the set of object IDs (\<open>None\<close> when there is no restriction), as the list of its
  tuples in the order of iteration.
\<close>

datatype 'v pattern =
  Pattern "'v pattern option" bool obj_type "'v list list option"

fun pattern_obj_type :: "'v pattern \<Rightarrow> obj_type" where
  "pattern_obj_type (Pattern base child obj_type obj_id_set) = obj_type"

text \<open>
  The statement and the parameters for a pattern without its base (lines 734-765):
  the type's statement joined with the given IDs, the statement followed by
  \<^verbatim>\<open> WHERE 0\<close> when the set of IDs is there and empty, the statement alone when there
  is no such set.
\<close>

definition restricted :: "string \<Rightarrow> obj_type \<Rightarrow> 'v list list option \<Rightarrow> string \<times> 'v list" where
  "restricted type_query_string obj_type obj_id_set =
     (case obj_id_set of
        None \<Rightarrow> (type_query_string, [])
      | Some ids \<Rightarrow>
          if ids \<noteq> [] then
            (''SELECT obj.* FROM ('' @ [CHR 0x0A] @
             indent type_query_string ''    '' @ [CHR 0x0A] @
             '') AS obj INNER JOIN ('' @ [CHR 0x0A] @
             ''    WITH ids('' @
             join '', '' (id_field_types obj_type) @
             '') AS (VALUES '' @
             join ('','' @ [CHR 0x0A])
               (replicate (length ids)
                  (''    ('' @
                   join '', '' (replicate (length (id_field_types obj_type)) ''?'') @
                   '')'')) @
             '') SELECT * FROM ids'' @ [CHR 0x0A] @
             '') AS ids USING('' @ join '', '' (id_field_types obj_type) @ '')'',
             concat ids)
          else (type_query_string @ '' WHERE 0'', []))"

text \<open>
  \<open>_oo_query_render\<close> (lines 722-792). A type without an entry in \<^verbatim>\<open>OO_QUERIES\<close>, or
  without the other type among its children, is a \<open>KeyError\<close>.
\<close>

fun oo_query_render :: "(string \<times> string) list \<Rightarrow> 'v pattern \<Rightarrow> error + string \<times> 'v list" where
  "oo_query_render OO_QUERIES (Pattern None child obj_type obj_id_set) =
     (case map_of OO_QUERIES (type_name obj_type) of
        None \<Rightarrow> Inl (KeyError (type_name obj_type))
      | Some type_query_string \<Rightarrow> Inr (restricted type_query_string obj_type obj_id_set))"
| "oo_query_render OO_QUERIES (Pattern (Some base) child obj_type obj_id_set) =
     (case map_of OO_QUERIES (type_name obj_type) of
        None \<Rightarrow> Inl (KeyError (type_name obj_type))
      | Some type_query_string \<Rightarrow>
          (case restricted type_query_string obj_type obj_id_set of
             (query_string, query_parameters) \<Rightarrow>
               (case oo_query_render OO_QUERIES base of
                  Inl e \<Rightarrow> Inl e
                | Inr (base_query_string, base_query_parameters) \<Rightarrow>
                    (let base_obj_type = pattern_obj_type base in
                     case (if child
                           then (case map_of (children' base_obj_type) (type_name obj_type) of
                                   None \<Rightarrow> Inl (KeyError (type_name obj_type))
                                 | Some ref_fields \<Rightarrow>
                                     Inr (zip ref_fields (id_field_types base_obj_type)))
                           else (case map_of (children' obj_type) (type_name base_obj_type) of
                                   None \<Rightarrow> Inl (KeyError (type_name base_obj_type))
                                 | Some ref_fields \<Rightarrow>
                                     Inr (zip (id_field_types obj_type) ref_fields))) of
                       Inl e \<Rightarrow> Inl e
                     | Inr column_pairs \<Rightarrow>
                         Inr (''SELECT obj.* FROM ('' @ [CHR 0x0A] @
                              indent query_string ''    '' @ [CHR 0x0A] @
                              '') AS obj INNER JOIN ('' @ [CHR 0x0A] @
                              indent base_query_string ''    '' @ [CHR 0x0A] @
                              '') AS base ON '' @
                              join '' AND ''
                                (map (\<lambda>(o', b). ''obj.'' @ o' @ '' = base.'' @ b) column_pairs),
                              query_parameters @ base_query_parameters)))))"

text \<open>
  The object types \<^verbatim>\<open>revision\<close> and \<^verbatim>\<open>issue\<close> of \<^verbatim>\<open>kcidb.orm.data\<close>: a revision is
  identified by its commit hash and its patchset hash, and checkouts refer to it by the
  fields of the same names; an issue is identified by its ID, and its versions refer to
  it by \<^verbatim>\<open>id\<close>.
\<close>

definition revision_type :: obj_type where
  "revision_type =
     \<lparr>type_name = ''revision'',
      id_field_types = [''git_commit_hash'', ''patchset_hash''],
      children' = [(''checkout'', [''git_commit_hash'', ''patchset_hash''])]\<rparr>"

definition issue_type :: obj_type where
  "issue_type =
     \<lparr>type_name = ''issue'',
      id_field_types = [''id''],
      children' = [(''issue_version'', [''id''])]\<rparr>"

section \<open>Schema-version marker: what is read back\<close>

lemma int_truediv_nonneg: "0 \<le> a \<Longrightarrow> 0 < b \<Longrightarrow> int_truediv a b = a div b"
  by (cases "a = 0") (simp_all add: int_truediv_def)

lemma set_schema_version_Some:
  "0 \<le> major \<Longrightarrow> 0 \<le> minor \<Longrightarrow>
   set_schema_version (Some (major, minor)) c =
     (None, commit (pragma_set_user_version (major * 1000 + minor mod 1000) c))"
  by (simp add: set_schema_version_def with_conn_def)

lemma user_version_commit_pragma:
  "0 \<le> number \<Longrightarrow> number \<le> 2147483647 \<Longrightarrow>
   user_version (commit (pragma_set_user_version number c)) = number"
  by (simp add: commit_def pragma_set_user_version_def)

text \<open>
  C5, as the code has it. For a version \<open>(major, minor)\<close> with \<open>minor < 1000\<close> whose
  number \<open>major * 1000 + minor\<close> fits the 32-bit header field, \<open>set_schema_version\<close>
  persists exactly that number, and \<open>get_schema_version\<close> on the same connection
  returns \<open>(major, minor)\<close>, except that the version \<open>(0, 0)\<close>, whose number is 0, reads
  back as \<open>None\<close>. After \<open>set_schema_version(None)\<close> the marker reads back as \<open>None\<close>.
\<close>

theorem schema_version_roundtrip:
  assumes "0 \<le> major" and "0 \<le> minor" and "minor < 1000"
    and "major * 1000 + minor \<le> 2147483647"
  shows "fst (set_schema_version (Some (major, minor)) c) = None
       \<and> user_version (snd (set_schema_version (Some (major, minor)) c)) = major * 1000 + minor
       \<and> fst (get_schema_version (snd (set_schema_version (Some (major, minor)) c))) =
           (None, if major = 0 \<and> minor = 0 then None else Some (major, minor))
       \<and> fst (get_schema_version (snd (set_schema_version None c))) = (None, None)"
proof -
  let ?n = "major * 1000 + minor"
  let ?c = "snd (set_schema_version (Some (major, minor)) c)"
  have mod_id: "minor mod 1000 = minor"
    using assms by simp
  have set_eq: "set_schema_version (Some (major, minor)) c =
      (None, commit (pragma_set_user_version ?n c))"
    using assms set_schema_version_Some [of major minor c] mod_id by simp
  have n_nonneg: "0 \<le> ?n"
    using assms by simp
  have uv: "user_version ?c = ?n"
    using set_eq user_version_commit_pragma [OF n_nonneg assms(4)] by simp
  have div_eq: "?n div 1000 = major"
    using assms by simp
  have mod_eq: "?n mod 1000 = minor"
    using assms by simp
  have zero_iff: "?n = 0 \<longleftrightarrow> major = 0 \<and> minor = 0"
    using assms(1,2) by linarith
  have get_eq: "fst (get_schema_version ?c) =
      (None, if major = 0 \<and> minor = 0 then None else Some (major, minor))"
    using uv zero_iff div_eq mod_eq n_nonneg
    by (simp add: get_schema_version_def Let_def int_truediv_nonneg)
  have none_eq: "fst (get_schema_version (snd (set_schema_version None c))) = (None, None)"
    by (simp add: get_schema_version_def set_schema_version_def with_conn_def commit_def
        pragma_set_user_version_def)
  show ?thesis
    using set_eq uv get_eq none_eq by simp
qed

theorem schema_version_roundtrip_witness:
  "fst (set_schema_version (Some (4, 1)) (new_connection False)) = None
   \<and> user_version (snd (set_schema_version (Some (4, 1)) (new_connection False))) = 4001
   \<and> fst (get_schema_version (snd (set_schema_version (Some (4, 1)) (new_connection False)))) =
       (None, Some (4, 1))"
  using schema_version_roundtrip [of 4 1 "new_connection False"] by simp

text \<open>
  The claim as stated fails for a minor number of 1000 or more: \<open>(4, 1000)\<close> is persisted
  as 4000, not 5000, and reads back as \<open>(4, 0)\<close>.
\<close>

theorem schema_version_roundtrip_counterexample:
  "user_version (snd (set_schema_version (Some (4, 1000)) (new_connection False))) = 4000
   \<and> fst (get_schema_version (snd (set_schema_version (Some (4, 1000)) (new_connection False)))) =
       (None, Some (4, 0))"
  by (simp add: set_schema_version_def with_conn_def commit_def pragma_set_user_version_def
      get_schema_version_def int_truediv_def new_connection_def)

section \<open>The v4.1 table map extends the v4.0 table map\<close>

lemma TABLES_ARGS_v04_01_eq:
  "TABLES_ARGS_v04_01 =
     Some (TABLES_ARGS_v04_00 @ [(''issues'', issues_args), (''incidents'', incidents_args)])"
  by (simp add: TABLES_ARGS_v04_01_def dict_kwargs_def TABLES_ARGS_v04_00_def)

lemma TABLES_v04_01_eq:
  "TABLES_v04_01 =
     [(''checkouts'', checkouts_args), (''builds'', builds_args), (''tests'', tests_args),
      (''issues'', issues_args), (''incidents'', incidents_args)]"
  by (simp add: TABLES_v04_01_def TABLES_ARGS_v04_01_eq TABLES_ARGS_v04_00_def)

lemma map_of_TABLES_v04_00:
  "map_of TABLES_v04_00 name =
     (if name = ''checkouts'' then Some checkouts_args
      else if name = ''builds'' then Some builds_args
      else if name = ''tests'' then Some tests_args else None)"
  by (simp add: TABLES_v04_00_def TABLES_ARGS_v04_00_def)

lemma map_of_TABLES_v04_01:
  "map_of TABLES_v04_01 name =
     (if name = ''checkouts'' then Some checkouts_args
      else if name = ''builds'' then Some builds_args
      else if name = ''tests'' then Some tests_args
      else if name = ''issues'' then Some issues_args
      else if name = ''incidents'' then Some incidents_args else None)"
  by (simp add: TABLES_v04_01_eq)

text \<open>
  C9. The v4.1 table map is built without a key clash; every table of the v4.0 map is in
  it under the same name with the same columns, constraints and primary key; its names
  are those of v4.0 and, new, \<open>issues\<close> and \<open>incidents\<close>, each once.
\<close>

theorem TABLES_ARGS_v04_01_superset:
  "TABLES_ARGS_v04_01 \<noteq> None
   \<and> (\<forall>name args. map_of TABLES_ARGS_v04_00 name = Some args
         \<longrightarrow> map_of (the TABLES_ARGS_v04_01) name = Some args)
   \<and> set (map fst (the TABLES_ARGS_v04_01)) =
       set (map fst TABLES_ARGS_v04_00) \<union> {''issues'', ''incidents''}
   \<and> ''issues'' \<notin> set (map fst TABLES_ARGS_v04_00)
   \<and> ''incidents'' \<notin> set (map fst TABLES_ARGS_v04_00)
   \<and> distinct (map fst (the TABLES_ARGS_v04_01))"
proof -
  have new: "''issues'' \<notin> set (map fst TABLES_ARGS_v04_00)"
    "''incidents'' \<notin> set (map fst TABLES_ARGS_v04_00)"
    by (simp_all add: TABLES_ARGS_v04_00_def)
  have kept: "map_of (the TABLES_ARGS_v04_01) name = Some args"
    if "map_of TABLES_ARGS_v04_00 name = Some args" for name args
    using that by (simp add: TABLES_ARGS_v04_01_eq map_add_Some_iff)
  have names: "set (map fst (the TABLES_ARGS_v04_01)) =
      set (map fst TABLES_ARGS_v04_00) \<union> {''issues'', ''incidents''}"
    by (auto simp add: TABLES_ARGS_v04_01_eq)
  have once: "distinct (map fst (the TABLES_ARGS_v04_01))"
    by (simp add: TABLES_ARGS_v04_01_eq TABLES_ARGS_v04_00_def)
  show ?thesis
    using new kept names once by (simp add: TABLES_ARGS_v04_01_eq)
qed

theorem TABLES_ARGS_v04_01_superset_witness:
  "map_of TABLES_ARGS_v04_00 ''builds'' = Some builds_args
   \<and> map_of (the TABLES_ARGS_v04_01) ''builds'' = Some builds_args"
proof -
  have h: "map_of TABLES_ARGS_v04_00 ''builds'' = Some builds_args"
    by (simp add: TABLES_ARGS_v04_00_def)
  from TABLES_ARGS_v04_01_superset
  have "\<forall>name args. map_of TABLES_ARGS_v04_00 name = Some args
         \<longrightarrow> map_of (the TABLES_ARGS_v04_01) name = Some args"
    by blast
  with h show ?thesis by blast
qed

section \<open>What \_inherit does to a v4.0 database\<close>

lemma inherit_loop_statements:
  "inherit_loop engine TABLES_v04_00 TABLES_v04_01 c =
     (case cursor_execute engine (Create_table ''issues'' issues_args) c of
        (Some exc, c') \<Rightarrow> (Some (Exception (''Failed creating table '' @ repr ''issues'')), c')
      | (None, c') \<Rightarrow>
          (case cursor_execute engine (Create_table ''incidents'' incidents_args) c' of
             (Some exc, c'') \<Rightarrow>
               (Some (Exception (''Failed creating table '' @ repr ''incidents'')), c'')
           | (None, c'') \<Rightarrow> (None, c'')))"
  by (simp add: TABLES_v04_01_eq TABLES_v04_00_def TABLES_ARGS_v04_00_def
      split: prod.splits option.splits)

lemma inherit_sqlite:
  assumes "tables c ''issues'' = None" and "tables c ''incidents'' = None"
  shows "inherit sqlite_execute c =
     (None, commit (c\<lparr>tables := (tables c)
        (''issues'' \<mapsto> \<lparr>tbl_schema = issues_args, tbl_rows = []\<rparr>,
         ''incidents'' \<mapsto> \<lparr>tbl_schema = incidents_args, tbl_rows = []\<rparr>)\<rparr>))"
  using assms by (simp add: inherit_def with_conn_def inherit_loop_statements cursor_execute_def)

text \<open>
  C8. Whatever the engine does with a statement, \<open>_inherit\<close> hands it the
  \<^verbatim>\<open>CREATE TABLE\<close> of \<open>issues\<close> and then of \<open>incidents\<close> and no other statement. On a
  database that complies with the v4.0 schema it succeeds, every table of v4.0 keeps
  its structure and its rows, the two new tables are empty, and the database complies
  with the v4.1 schema.
\<close>

theorem inherit_adds_issues_and_incidents:
  assumes "complies c TABLES_v04_00"
  shows "inherit engine c =
           with_conn (\<lambda>c.
             case cursor_execute engine (Create_table ''issues'' issues_args) c of
               (Some exc, c') \<Rightarrow>
                 (Some (Exception (''Failed creating table '' @ repr ''issues'')), c')
             | (None, c') \<Rightarrow>
                 (case cursor_execute engine (Create_table ''incidents'' incidents_args) c' of
                    (Some exc, c'') \<Rightarrow>
                      (Some (Exception (''Failed creating table '' @ repr ''incidents'')), c'')
                  | (None, c'') \<Rightarrow> (None, c''))) c
       \<and> fst (inherit sqlite_execute c) = None
       \<and> (\<forall>name \<in> set (map fst TABLES_v04_00).
             tables (snd (inherit sqlite_execute c)) name = tables c name)
       \<and> tables (snd (inherit sqlite_execute c)) ''issues'' =
           Some \<lparr>tbl_schema = issues_args, tbl_rows = []\<rparr>
       \<and> tables (snd (inherit sqlite_execute c)) ''incidents'' =
           Some \<lparr>tbl_schema = incidents_args, tbl_rows = []\<rparr>
       \<and> durable (snd (inherit sqlite_execute c)) = tables (snd (inherit sqlite_execute c))
       \<and> complies (snd (inherit sqlite_execute c)) TABLES_v04_01"
proof -
  have absent: "tables c ''issues'' = None" "tables c ''incidents'' = None"
    using assms [unfolded complies_def, rule_format, of "''issues''"]
      assms [unfolded complies_def, rule_format, of "''incidents''"]
    by (simp_all add: map_of_TABLES_v04_00)
  note result = inherit_sqlite [OF absent]
  have statements: "inherit engine c =
           with_conn (\<lambda>c.
             case cursor_execute engine (Create_table ''issues'' issues_args) c of
               (Some exc, c') \<Rightarrow>
                 (Some (Exception (''Failed creating table '' @ repr ''issues'')), c')
             | (None, c') \<Rightarrow>
                 (case cursor_execute engine (Create_table ''incidents'' incidents_args) c' of
                    (Some exc, c'') \<Rightarrow>
                      (Some (Exception (''Failed creating table '' @ repr ''incidents'')), c'')
                  | (None, c'') \<Rightarrow> (None, c''))) c"
    unfolding inherit_def with_conn_def inherit_loop_statements ..
  have kept: "\<forall>name \<in> set (map fst TABLES_v04_00).
      tables (snd (inherit sqlite_execute c)) name = tables c name"
    by (simp add: result commit_def TABLES_v04_00_def TABLES_ARGS_v04_00_def)
  have compl: "complies (snd (inherit sqlite_execute c)) TABLES_v04_01"
    unfolding complies_def
  proof
    fix name
    have "map_option tbl_schema (tables c name) = map_of TABLES_v04_00 name"
      using assms by (simp add: complies_def)
    moreover have "tables (snd (inherit sqlite_execute c)) name =
        (if name = ''incidents'' then Some \<lparr>tbl_schema = incidents_args, tbl_rows = []\<rparr>
         else if name = ''issues'' then Some \<lparr>tbl_schema = issues_args, tbl_rows = []\<rparr>
         else tables c name)"
      by (simp add: result commit_def)
    moreover have "map_of TABLES_v04_01 name =
        (if name = ''incidents'' then Some incidents_args
         else if name = ''issues'' then Some issues_args
         else map_of TABLES_v04_00 name)"
      by (simp add: map_of_TABLES_v04_00 map_of_TABLES_v04_01)
    ultimately show "map_option tbl_schema (tables (snd (inherit sqlite_execute c)) name) =
        map_of TABLES_v04_01 name"
      by simp
  qed
  show ?thesis
    using statements kept compl by (simp add: result commit_def)
qed

lemma init_v04_00_new:
  "init sqlite_execute TABLES_v04_00 (new_connection prio) =
     (None, commit ((new_connection prio)\<lparr>tables := Map.empty
        (''checkouts'' \<mapsto> \<lparr>tbl_schema = checkouts_args, tbl_rows = []\<rparr>,
         ''builds'' \<mapsto> \<lparr>tbl_schema = builds_args, tbl_rows = []\<rparr>,
         ''tests'' \<mapsto> \<lparr>tbl_schema = tests_args, tbl_rows = []\<rparr>)\<rparr>))"
  by (simp add: init_def with_conn_def TABLES_v04_00_def TABLES_ARGS_v04_00_def
      new_connection_def cursor_execute_def)

lemma complies_init_v04_00:
  "complies (snd (init sqlite_execute TABLES_v04_00 (new_connection prio))) TABLES_v04_00"
  by (simp add: complies_def init_v04_00_new commit_def map_of_TABLES_v04_00)

theorem inherit_adds_issues_and_incidents_witness:
  "complies (snd (init sqlite_execute TABLES_v04_00 (new_connection False))) TABLES_v04_00
   \<and> fst (inherit sqlite_execute
        (snd (init sqlite_execute TABLES_v04_00 (new_connection False)))) = None
   \<and> tables (snd (inherit sqlite_execute
        (snd (init sqlite_execute TABLES_v04_00 (new_connection False))))) ''tests'' =
       Some \<lparr>tbl_schema = tests_args, tbl_rows = []\<rparr>
   \<and> tables (snd (inherit sqlite_execute
        (snd (init sqlite_execute TABLES_v04_00 (new_connection False))))) ''incidents'' =
       Some \<lparr>tbl_schema = incidents_args, tbl_rows = []\<rparr>"
proof -
  let ?c = "snd (init sqlite_execute TABLES_v04_00 (new_connection False)) :: string connection"
  have h: "complies ?c TABLES_v04_00"
    by (rule complies_init_v04_00)
  have tests: "tables ?c ''tests'' = Some \<lparr>tbl_schema = tests_args, tbl_rows = []\<rparr>"
    by (simp add: init_v04_00_new commit_def)
  have mem: "''tests'' \<in> set (map fst TABLES_v04_00)"
    by (simp add: TABLES_v04_00_def TABLES_ARGS_v04_00_def)
  note facts = inherit_adds_issues_and_incidents [OF h, of sqlite_execute, THEN conjunct2]
  from facts have ok: "fst (inherit sqlite_execute ?c) = None"
    by blast
  from facts have "\<forall>name \<in> set (map fst TABLES_v04_00).
      tables (snd (inherit sqlite_execute ?c)) name = tables ?c name"
    by blast
  with mem have kept: "tables (snd (inherit sqlite_execute ?c)) ''tests'' = tables ?c ''tests''"
    by blast
  from facts have new: "tables (snd (inherit sqlite_execute ?c)) ''incidents'' =
      Some \<lparr>tbl_schema = incidents_args, tbl_rows = []\<rparr>"
    by blast
  show ?thesis
    using h ok kept tests new by simp
qed

section \<open>load: one transaction, and the priority flag\<close>

lemma cursor_execute_frame:
  "cursor_execute engine stmt c = (exc, c') \<Longrightarrow>
   load_prio_db c' = load_prio_db c \<and> durable c' = durable c \<and> user_version c' = user_version c"
  by (auto simp add: cursor_execute_def split: prod.splits)

lemma cursor_execute_tables_only:
  "cursor_execute engine stmt c = (exc, c') \<Longrightarrow> c' = c\<lparr>tables := tables c'\<rparr>"
  by (auto simp add: cursor_execute_def split: prod.splits)

lemma load_loop_tables_only:
  "load_loop S engine data with_metadata ts c = (exc, c') \<Longrightarrow> c' = c\<lparr>tables := tables c'\<rparr>"
proof (induction ts arbitrary: c)
  case Nil
  then show ?case by simp
next
  case (Cons t ts)
  obtain table_name table_schema where t: "t = (table_name, table_schema)"
    by (cases t)
  show ?case
  proof (cases "map_of (lists data) table_name")
    case None
    with Cons t show ?thesis by simp
  next
    case (Some objs)
    obtain e1 c1 where ex: "cursor_execute engine
        (Insert_rows table_name (load_prio_db c) with_metadata
           (pack_iter S table_schema objs with_metadata)) c = (e1, c1)"
      by (cases "cursor_execute engine
        (Insert_rows table_name (load_prio_db c) with_metadata
           (pack_iter S table_schema objs with_metadata)) c")
    note c1 = cursor_execute_tables_only [OF ex]
    show ?thesis
    proof (cases e1)
      case None
      with Cons.prems t Some ex
      have "load_loop S engine data with_metadata ts c1 = (exc, c')"
        by simp
      from Cons.IH [OF this] have "c' = c1\<lparr>tables := tables c'\<rparr>" .
      then have "c' = (c\<lparr>tables := tables c1\<rparr>)\<lparr>tables := tables c'\<rparr>"
        using c1 by simp
      then show ?thesis by simp
    next
      case (Some e)
      with Cons.prems t \<open>map_of (lists data) table_name = Some objs\<close> ex
      have "c' = c1" by simp
      with c1 show ?thesis by simp
    qed
  qed
qed

lemma rollback_tables_only: "rollback (c\<lparr>tables := db\<rparr>) = rollback c"
  by (simp add: rollback_def)

lemma load_loop_priority:
  "load_loop S engine data with_metadata ts c =
   load_loop S (\<lambda>stmt. engine (with_priority (load_prio_db c) stmt)) data with_metadata ts c"
proof (induction ts arbitrary: c)
  case Nil
  then show ?case by simp
next
  case (Cons t ts)
  obtain table_name table_schema where t: "t = (table_name, table_schema)"
    by (cases t)
  have step: "cursor_execute (\<lambda>stmt. engine (with_priority (load_prio_db c) stmt))
        (Insert_rows table_name (load_prio_db c) with_metadata rows) c =
      cursor_execute engine (Insert_rows table_name (load_prio_db c) with_metadata rows) c"
    for rows
    by (simp add: cursor_execute_def)
  show ?case
  proof (cases "map_of (lists data) table_name")
    case None
    with Cons.IH [of c] t show ?thesis by simp
  next
    case (Some objs)
    obtain e1 c1 where ex: "cursor_execute engine
        (Insert_rows table_name (load_prio_db c) with_metadata
           (pack_iter S table_schema objs with_metadata)) c = (e1, c1)"
      by (cases "cursor_execute engine
        (Insert_rows table_name (load_prio_db c) with_metadata
           (pack_iter S table_schema objs with_metadata)) c")
    from cursor_execute_frame [OF ex] have same: "load_prio_db c1 = load_prio_db c"
      by simp
    show ?thesis
      using Cons.IH [of c1] t Some ex step same
      by (cases e1) simp_all
  qed
qed

lemma load_failure_cases:
  assumes "load S engine data with_metadata copy c = (Some exc, c')"
  shows "c' = c \<or> c' = rollback c"
proof (cases "\<not> is_compatible_directly (io S) data
    \<or> \<not> (LIGHT_ASSERTS S \<or> is_valid_exactly (io S) data)")
  case True
  with assms show ?thesis
    by (auto simp add: load_def split: if_splits)
next
  case False
  obtain e1 c1 where loop: "load_loop S engine data with_metadata (TABLES S) c = (e1, c1)"
    by (cases "load_loop S engine data with_metadata (TABLES S) c")
  from load_loop_tables_only [OF loop] have c1: "c1 = c\<lparr>tables := tables c1\<rparr>" .
  from assms False loop have "e1 = Some exc \<and> c' = rollback c1"
    by (cases e1) (auto simp add: load_def with_conn_def)
  then have "c' = rollback (c\<lparr>tables := tables c1\<rparr>)"
    using c1 by simp
  then show ?thesis
    by (simp add: rollback_tables_only)
qed

lemma load_success:
  assumes "load S engine data with_metadata copy c = (None, c')"
  shows "load_prio_db c' = (\<not> load_prio_db c) \<and> durable c' = tables c'
       \<and> is_compatible_directly (io S) data
       \<and> (LIGHT_ASSERTS S \<or> is_valid_exactly (io S) data)"
proof -
  have pass: "is_compatible_directly (io S) data"
    "LIGHT_ASSERTS S \<or> is_valid_exactly (io S) data"
    using assms by (auto simp add: load_def split: if_splits)
  obtain e1 c1 where loop: "load_loop S engine data with_metadata (TABLES S) c = (e1, c1)"
    by (cases "load_loop S engine data with_metadata (TABLES S) c")
  from load_loop_tables_only [OF loop] have c1: "c1 = c\<lparr>tables := tables c1\<rparr>" .
  from arg_cong [OF c1, of load_prio_db] have flag: "load_prio_db c1 = load_prio_db c"
    by simp
  from assms pass loop have "e1 = None \<and> c' = (commit c1)\<lparr>load_prio_db := \<not> load_prio_db (commit c1)\<rparr>"
    by (cases e1) (auto simp add: load_def with_conn_def)
  then show ?thesis
    using flag pass by (simp add: commit_def)
qed

lemma load_rejects:
  assumes "\<not> is_compatible_directly (io S) data
    \<or> \<not> (LIGHT_ASSERTS S \<or> is_valid_exactly (io S) data)"
  shows "load S engine data with_metadata copy c = (Some AssertionError, c)"
  using assms by (auto simp add: load_def)

lemma key_columns_checkouts: "key_columns checkouts_args = [''id'']"
  by (simp add: key_columns_def checkouts_args_def)

lemma not_null_columns_checkouts: "not_null_columns checkouts_args = [''origin'']"
  by (simp add: not_null_columns_def checkouts_args_def)

lemma insert_row_conflict:
  "row_key schema old = row_key schema new \<Longrightarrow>
   insert_row schema prio_db new [old] = [if prio_db then old else new]"
  by simp

lemma load_checkout_sqlite:
  assumes "is_compatible_directly (io S) data"
    and "LIGHT_ASSERTS S \<or> is_valid_exactly (io S) data"
    and "TABLES S = TABLES_v04_00"
    and "lists data = [(''checkouts'', objs)]"
    and "pack_iter S checkouts_args objs with_metadata = [new]"
    and "new ''origin'' \<noteq> None"
    and "tables c ''checkouts'' = Some t"
    and "tbl_schema t = checkouts_args"
  shows "load S sqlite_execute data with_metadata copy c =
     (None, c\<lparr>load_prio_db := \<not> load_prio_db c,
               tables := (tables c)(''checkouts'' \<mapsto>
                 t\<lparr>tbl_rows := insert_row checkouts_args (load_prio_db c) new (tbl_rows t)\<rparr>),
               durable := (tables c)(''checkouts'' \<mapsto>
                 t\<lparr>tbl_rows := insert_row checkouts_args (load_prio_db c) new (tbl_rows t)\<rparr>)\<rparr>)"
  using assms
  by (simp add: load_def with_conn_def TABLES_v04_00_def TABLES_ARGS_v04_00_def
      cursor_execute_def commit_def not_null_columns_checkouts)

lemma tables_init_v04_00:
  "snd (init sqlite_execute TABLES_v04_00 (new_connection prio)) =
     \<lparr>load_prio_db = prio, user_version = 0,
      tables = Map.empty
        (''checkouts'' \<mapsto> \<lparr>tbl_schema = checkouts_args, tbl_rows = []\<rparr>,
         ''builds'' \<mapsto> \<lparr>tbl_schema = builds_args, tbl_rows = []\<rparr>,
         ''tests'' \<mapsto> \<lparr>tbl_schema = tests_args, tbl_rows = []\<rparr>),
      durable = Map.empty
        (''checkouts'' \<mapsto> \<lparr>tbl_schema = checkouts_args, tbl_rows = []\<rparr>,
         ''builds'' \<mapsto> \<lparr>tbl_schema = builds_args, tbl_rows = []\<rparr>,
         ''tests'' \<mapsto> \<lparr>tbl_schema = tests_args, tbl_rows = []\<rparr>)\<rparr>"
  unfolding init_v04_00_new by (simp add: commit_def new_connection_def)

lemma ids_have_origin_checkout:
  "ids_have_origin (document [(''checkouts'', [checkout_row ''origin:1'' comm])])"
  by (simp add: ids_have_origin_def document_def checkout_row_def)

lemma load_example:
  assumes "tables c ''checkouts'' = Some t" and "tbl_schema t = checkouts_args"
  shows "load (Schema_v04_00 False (\<lambda>d. True) ids_have_origin) sqlite_execute
           (document [(''checkouts'', [checkout_row ''origin:1'' comm])]) False True c =
     (None, c\<lparr>load_prio_db := \<not> load_prio_db c,
               tables := (tables c)(''checkouts'' \<mapsto>
                 t\<lparr>tbl_rows := insert_row checkouts_args (load_prio_db c)
                   (checkout_row ''origin:1'' comm) (tbl_rows t)\<rparr>),
               durable := (tables c)(''checkouts'' \<mapsto>
                 t\<lparr>tbl_rows := insert_row checkouts_args (load_prio_db c)
                   (checkout_row ''origin:1'' comm) (tbl_rows t)\<rparr>)\<rparr>)"
proof (rule load_checkout_sqlite [OF _ _ _ _ _ _ assms])
  show "is_compatible_directly (io (Schema_v04_00 False (\<lambda>d. True) ids_have_origin))
      (document [(''checkouts'', [checkout_row ''origin:1'' comm])])"
    by (simp add: Schema_v04_00_def io_V4_0_def)
  show "LIGHT_ASSERTS (Schema_v04_00 False (\<lambda>d. True) ids_have_origin)
      \<or> is_valid_exactly (io (Schema_v04_00 False (\<lambda>d. True) ids_have_origin))
          (document [(''checkouts'', [checkout_row ''origin:1'' comm])])"
    by (simp add: Schema_v04_00_def io_V4_0_def ids_have_origin_checkout)
  show "TABLES (Schema_v04_00 False (\<lambda>d. True) ids_have_origin) = TABLES_v04_00"
    by (simp add: Schema_v04_00_def)
  show "lists (document [(''checkouts'', [checkout_row ''origin:1'' comm])]) =
      [(''checkouts'', [checkout_row ''origin:1'' comm])]"
    by (simp add: document_def)
  show "pack_iter (Schema_v04_00 False (\<lambda>d. True) ids_have_origin) checkouts_args
      [checkout_row ''origin:1'' comm] False = [checkout_row ''origin:1'' comm]"
    by (simp add: Schema_v04_00_def)
  show "checkout_row ''origin:1'' comm ''origin'' \<noteq> None"
    by (simp add: checkout_row_def)
qed

lemma row_key_checkout_row:
  "row_key checkouts_args (checkout_row i comm) = [Some i]"
  by (simp add: row_key_def key_columns_checkouts checkout_row_def)

lemma not_null_columns_builds: "not_null_columns builds_args = [''checkout_id'', ''origin'']"
  by (simp add: not_null_columns_def builds_args_def)

text \<open>
  C7, as the code has it. The inserts of one document run inside one
  \<^verbatim>\<open>with self.conn\<close>: when \<open>load\<close> returns, what the connection sees is committed;
  when it raises, the connection is as before the call or rolled back to the last
  commit, so with no change pending before the call the state is unchanged. A document
  that fails the direct-compatibility check, or that fails validation while
  \<open>LIGHT_ASSERTS\<close> is off, is rejected with the state unchanged, whatever the engine.
\<close>

theorem load_atomic:
  assumes "load S engine data with_metadata copy c = (exc, c')"
  shows "(exc = None \<longrightarrow> durable c' = tables c')
       \<and> (exc \<noteq> None \<longrightarrow> (c' = c \<or> c' = rollback c) \<and> durable c' = durable c)
       \<and> (exc \<noteq> None \<and> tables c = durable c \<longrightarrow> c' = c)
       \<and> (\<not> is_compatible_directly (io S) data
            \<or> \<not> (LIGHT_ASSERTS S \<or> is_valid_exactly (io S) data)
          \<longrightarrow> exc = Some AssertionError \<and> c' = c)"
proof -
  have ok: "durable c' = tables c'" if "exc = None"
    using load_success [of S engine data with_metadata copy c c'] assms that by simp
  have failed: "c' = c \<or> c' = rollback c" if "exc \<noteq> None"
    using load_failure_cases [of S engine data with_metadata copy c _ c'] assms that by auto
  have kept: "durable c' = durable c" if "exc \<noteq> None"
    using failed [OF that] by (auto simp add: rollback_def)
  have same: "c' = c" if "exc \<noteq> None" and "tables c = durable c"
    using failed [OF that(1)] that(2) by (auto simp add: rollback_def)
  have rejected: "exc = Some AssertionError \<and> c' = c"
    if "\<not> is_compatible_directly (io S) data
      \<or> \<not> (LIGHT_ASSERTS S \<or> is_valid_exactly (io S) data)"
    using load_rejects [OF that, of engine with_metadata copy c] assms by simp
  show ?thesis
    using ok failed kept same rejected by blast
qed

theorem load_atomic_witness:
  "let S = Schema_v04_00 True (\<lambda>d. True) ids_have_origin;
       c0 = snd (init sqlite_execute TABLES_v04_00 (new_connection True));
       r = load S sqlite_execute
             (document [(''checkouts'', [checkout_row ''origin:1'' ''first'']),
                        (''builds'', [build_row ''origin:2'' None])]) False True c0
   in fst r = Some (IntegrityError ''NOT NULL constraint failed: builds'')
    \<and> tables c0 = durable c0 \<and> snd r = c0"
proof -
  define S :: "(string row, string) schema"
    where "S = Schema_v04_00 True (\<lambda>d. True) ids_have_origin"
  define c0 :: "string connection"
    where "c0 = snd (init sqlite_execute TABLES_v04_00 (new_connection True))"
  define r where "r = load S sqlite_execute
             (document [(''checkouts'', [checkout_row ''origin:1'' ''first'']),
                        (''builds'', [build_row ''origin:2'' None])]) False True c0"
  have raised: "fst r = Some (IntegrityError ''NOT NULL constraint failed: builds'')"
    unfolding r_def S_def c0_def tables_init_v04_00
    by (simp add: load_def with_conn_def Schema_v04_00_def io_V4_0_def
        TABLES_v04_00_def TABLES_ARGS_v04_00_def cursor_execute_def rollback_def
        document_def not_null_columns_checkouts not_null_columns_builds
        checkout_row_def build_row_def)
  have clean: "tables c0 = durable c0"
    by (simp add: c0_def tables_init_v04_00)
  have run: "load S sqlite_execute
             (document [(''checkouts'', [checkout_row ''origin:1'' ''first'']),
                        (''builds'', [build_row ''origin:2'' None])]) False True c0
      = (fst r, snd r)"
    by (simp add: r_def)
  from load_atomic [OF run] raised clean have "snd r = c0"
    by simp
  with raised clean show ?thesis
    unfolding Let_def r_def S_def c0_def by simp
qed

text \<open>
  With \<open>LIGHT_ASSERTS\<close> on, a document that fails validation (an \<open>id\<close> without a colon)
  and passes the direct-compatibility check is loaded and committed.
\<close>

theorem load_atomic_counterexample:
  "let S = Schema_v04_00 True (\<lambda>d. True) ids_have_origin;
       c0 = snd (init sqlite_execute TABLES_v04_00 (new_connection True));
       data = document [(''checkouts'', [checkout_row ''1'' ''first''])];
       r = load S sqlite_execute data False True c0
   in \<not> is_valid_exactly (io S) data \<and> fst r = None
    \<and> map_option tbl_rows (durable (snd r) ''checkouts'') = Some [checkout_row ''1'' ''first'']"
  unfolding Let_def tables_init_v04_00
  by (simp add: load_def with_conn_def Schema_v04_00_def io_V4_0_def
      TABLES_v04_00_def TABLES_ARGS_v04_00_def cursor_execute_def commit_def
      document_def not_null_columns_checkouts ids_have_origin_def checkout_row_def)

text \<open>
  C6, as the code has it. Of three calls of \<open>load\<close> in a row that return, each leaves
  the flag negated, so the third starts from the flag of the first; and the insert
  statements of each call carry the flag the call started with: the engine may as well
  be handed that priority whatever the statement says.
\<close>

theorem load_alternates_priority:
  assumes "load S engine d1 with_metadata copy c0 = (None, c1)"
    and "load S engine d2 with_metadata copy c1 = (None, c2)"
    and "load S engine d3 with_metadata copy c2 = (None, c3)"
  shows "load_prio_db c1 = (\<not> load_prio_db c0)
       \<and> load_prio_db c2 = load_prio_db c0
       \<and> load_prio_db c3 = (\<not> load_prio_db c0)
       \<and> load S (\<lambda>stmt. engine (with_priority (load_prio_db c0) stmt)) d1 with_metadata copy c0
           = (None, c1)
       \<and> load S (\<lambda>stmt. engine (with_priority (\<not> load_prio_db c0) stmt)) d2 with_metadata copy c1
           = (None, c2)
       \<and> load S (\<lambda>stmt. engine (with_priority (load_prio_db c0) stmt)) d3 with_metadata copy c2
           = (None, c3)"
proof -
  have prio: "load S (\<lambda>stmt. engine (with_priority (load_prio_db c) stmt)) d with_metadata copy c
      = load S engine d with_metadata copy c" for d c
    using load_loop_priority [of S engine d with_metadata "TABLES S" c]
    by (simp add: load_def with_conn_def)
  have f1: "load_prio_db c1 = (\<not> load_prio_db c0)"
    using load_success [OF assms(1)] by simp
  have f2: "load_prio_db c2 = (\<not> load_prio_db c1)"
    using load_success [OF assms(2)] by simp
  have f3: "load_prio_db c3 = (\<not> load_prio_db c2)"
    using load_success [OF assms(3)] by simp
  show ?thesis
    using f1 f2 f3 prio [of c0 d1] prio [of c1 d2] prio [of c2 d3] assms by simp
qed

theorem load_alternates_priority_witness:
  "let S = Schema_v04_00 False (\<lambda>d. True) ids_have_origin;
       c0 = snd (init sqlite_execute TABLES_v04_00 (new_connection True));
       r1 = load S sqlite_execute
              (document [(''checkouts'', [checkout_row ''origin:1'' ''first''])]) False True c0;
       r2 = load S sqlite_execute
              (document [(''checkouts'', [checkout_row ''origin:1'' ''second''])]) False True (snd r1);
       r3 = load S sqlite_execute
              (document [(''checkouts'', [checkout_row ''origin:1'' ''third''])]) False True (snd r2)
   in fst r1 = None \<and> fst r2 = None \<and> fst r3 = None
    \<and> load_prio_db c0 \<and> \<not> load_prio_db (snd r1) \<and> load_prio_db (snd r2)
    \<and> \<not> load_prio_db (snd r3)
    \<and> map_option tbl_rows (tables (snd r1) ''checkouts'') =
        Some [checkout_row ''origin:1'' ''first'']
    \<and> map_option tbl_rows (tables (snd r2) ''checkouts'') =
        Some [checkout_row ''origin:1'' ''second'']
    \<and> map_option tbl_rows (tables (snd r3) ''checkouts'') =
        Some [checkout_row ''origin:1'' ''second'']"
proof -
  define S :: "(string row, string) schema"
    where "S = Schema_v04_00 False (\<lambda>d. True) ids_have_origin"
  define c0 :: "string connection"
    where "c0 = snd (init sqlite_execute TABLES_v04_00 (new_connection True))"
  define d :: "string \<Rightarrow> string row report"
    where "d = (\<lambda>comm. document [(''checkouts'', [checkout_row ''origin:1'' comm])])"
  define r1 where "r1 = load S sqlite_execute (d ''first'') False True c0"
  define r2 where "r2 = load S sqlite_execute (d ''second'') False True (snd r1)"
  define r3 where "r3 = load S sqlite_execute (d ''third'') False True (snd r2)"
  have c0: "load_prio_db c0"
    "tables c0 ''checkouts'' = Some \<lparr>tbl_schema = checkouts_args, tbl_rows = []\<rparr>"
    by (simp_all add: c0_def tables_init_v04_00)
  have r1: "fst r1 = None"
    "tables (snd r1) ''checkouts'' =
       Some \<lparr>tbl_schema = checkouts_args, tbl_rows = [checkout_row ''origin:1'' ''first'']\<rparr>"
    unfolding r1_def S_def d_def
    by (simp_all add: load_example [OF c0(2)] c0)
  have r2: "fst r2 = None"
    unfolding r2_def S_def d_def
    by (simp add: load_example [OF r1(2)])
  have e1: "load S sqlite_execute (d ''first'') False True c0 = (None, snd r1)"
    using r1(1) by (simp add: r1_def prod_eq_iff)
  have e2: "load S sqlite_execute (d ''second'') False True (snd r1) = (None, snd r2)"
    using r2(1) by (simp add: r2_def prod_eq_iff)
  have flag1: "\<not> load_prio_db (snd r1)"
    using load_success [OF e1] c0(1) by simp
  have rows2: "tables (snd r2) ''checkouts'' =
       Some \<lparr>tbl_schema = checkouts_args, tbl_rows = [checkout_row ''origin:1'' ''second'']\<rparr>"
    unfolding r2_def S_def d_def
    using flag1 by (simp add: load_example [OF r1(2)] row_key_checkout_row)
  have r3: "fst r3 = None"
    unfolding r3_def S_def d_def
    by (simp add: load_example [OF rows2])
  have e3: "load S sqlite_execute (d ''third'') False True (snd r2) = (None, snd r3)"
    using r3(1) by (simp add: r3_def prod_eq_iff)
  note alt = load_alternates_priority [OF e1 e2 e3]
  have flag2: "load_prio_db (snd r2)"
    using alt c0(1) by simp
  have flag3: "\<not> load_prio_db (snd r3)"
    using alt c0(1) by simp
  have rows3: "tables (snd r3) ''checkouts'' =
       Some \<lparr>tbl_schema = checkouts_args, tbl_rows = [checkout_row ''origin:1'' ''second'']\<rparr>"
    unfolding r3_def S_def d_def
    using flag2 by (simp add: load_example [OF rows2] row_key_checkout_row)
  have "fst r1 = None \<and> fst r2 = None \<and> fst r3 = None
    \<and> load_prio_db c0 \<and> \<not> load_prio_db (snd r1) \<and> load_prio_db (snd r2)
    \<and> \<not> load_prio_db (snd r3)
    \<and> map_option tbl_rows (tables (snd r1) ''checkouts'') =
        Some [checkout_row ''origin:1'' ''first'']
    \<and> map_option tbl_rows (tables (snd r2) ''checkouts'') =
        Some [checkout_row ''origin:1'' ''second'']
    \<and> map_option tbl_rows (tables (snd r3) ''checkouts'') =
        Some [checkout_row ''origin:1'' ''second'']"
    using r1 r2(1) r3(1) c0(1) flag1 flag2 flag3 rows2 rows3 by simp
  then show ?thesis
    unfolding Let_def r1_def r2_def r3_def S_def c0_def d_def .
qed

text \<open>
  A call that raises (here on a database file whose tables were never created) leaves
  the flag as it was.
\<close>

theorem load_alternates_priority_counterexample:
  "load_prio_db (new_connection True :: string connection)
   \<and> fst (load (Schema_v04_00 False (\<lambda>d. True) ids_have_origin) sqlite_execute
        (document [(''checkouts'', [checkout_row ''origin:1'' ''first''])]) False True
        (new_connection True)) = Some (OperationalError ''no such table: checkouts'')
   \<and> load_prio_db (snd (load (Schema_v04_00 False (\<lambda>d. True) ids_have_origin) sqlite_execute
        (document [(''checkouts'', [checkout_row ''origin:1'' ''first''])]) False True
        (new_connection True)))"
  by (simp add: load_def with_conn_def Schema_v04_00_def io_V4_0_def ids_have_origin_def
      checkout_row_def TABLES_v04_00_def TABLES_ARGS_v04_00_def cursor_execute_def rollback_def
      new_connection_def document_def)

section \<open>The walks over the type graph\<close>

lemma graph_V4_0:
  "map_of (graph (io_V4_0 compatible valid)) name =
     (if name = [] then Some [''checkouts'']
      else if name = ''checkouts'' then Some [''builds'']
      else if name = ''builds'' then Some [''tests'']
      else if name = ''tests'' then Some [] else None)"
  by (simp add: io_V4_0_def)

lemma graph_V4_2:
  "map_of (graph (io_V4_2 compatible valid)) name =
     (if name = [] then Some [''checkouts'', ''issues'']
      else if name = ''checkouts'' then Some [''builds'']
      else if name = ''builds'' then Some [''tests'', ''incidents'']
      else if name = ''tests'' then Some [''incidents'']
      else if name = ''issues'' then Some [''incidents'']
      else if name = ''incidents'' then Some [] else None)"
  by (simp add: io_V4_2_def)

lemma selects_append_children [simp]:
  "selects (append_children obj_list_name child_list_name query child_query) \<noteq> []"
  by (simp add: append_children_def)

lemma selects_append_parents [simp]:
  "selects (append_parents obj_list_name child_list_name child_query query) \<noteq> []"
  by (simp add: append_parents_def)



lemma add_parents_V4_0:
  assumes "map_of qs ''checkouts'' = Some qc"
    and "map_of qs ''builds'' = Some qb"
    and "map_of qs ''tests'' = Some qt"
    and "G = graph (io_V4_0 compatible valid)"
  shows "\<exists>qs'. expand G (add_parents (Suc (Suc (Suc depth))) G) True qs = Inr qs'
       \<and> map_of qs' = (map_of qs)
            (''builds'' \<mapsto> expanded_parents ''builds'' ''tests'' qt qb,
             ''checkouts'' \<mapsto> expanded_parents ''checkouts'' ''builds''
                (expanded_parents ''builds'' ''tests'' qt qb) qc)"
  using assms unfolding expanded_parents_def
  by (cases "selects qt = []"; cases "selects qb = []")
    (simp_all add: expand_def graph_V4_0 AList.update_conv' fun_eq_iff)

lemma add_parents_V4_2:
  assumes "map_of qs ''checkouts'' = Some qc"
    and "map_of qs ''builds'' = Some qb"
    and "map_of qs ''tests'' = Some qt"
    and "map_of qs ''issues'' = Some qi"
    and "map_of qs ''incidents'' = Some qn"
    and "G = graph (io_V4_2 compatible valid)"
  shows "\<exists>qs'. expand G (add_parents (Suc (Suc (Suc (Suc depth)))) G) True qs = Inr qs'
       \<and> map_of qs' = (map_of qs)
            (''tests'' \<mapsto> expanded_parents ''tests'' ''incidents'' qn qt,
             ''builds'' \<mapsto>
                expanded_parents ''builds'' ''incidents'' qn
                  (expanded_parents ''builds'' ''tests''
                     (expanded_parents ''tests'' ''incidents'' qn qt) qb),
             ''checkouts'' \<mapsto>
                expanded_parents ''checkouts'' ''builds''
                  (expanded_parents ''builds'' ''incidents'' qn
                     (expanded_parents ''builds'' ''tests''
                        (expanded_parents ''tests'' ''incidents'' qn qt) qb)) qc,
             ''issues'' \<mapsto> expanded_parents ''issues'' ''incidents'' qn qi)"
  using assms unfolding expanded_parents_def
  by (cases "selects qn = []"; cases "selects qt = []"; cases "selects qb = []")
    (simp_all add: expand_def graph_V4_2 AList.update_conv' fun_eq_iff)




section \<open>The ids argument of query\_iter\<close>

lemma id_queries_cong:
  assumes "\<forall>name \<in> set (map fst (id_fields V)). ids name = ids' name"
  shows "id_queries V ids = id_queries V ids'"
  unfolding id_queries_def using assms
  by (intro map_cong refl) auto

text \<open>
  C10. The documents of \<open>query_iter\<close> are the same for two \<open>ids\<close> arguments that agree
  on the object list names of the I/O schema: an entry under any other key changes
  nothing, exception or not.
\<close>

theorem query_iter_ignores_unknown_ids:
  assumes "\<forall>name \<in> set (map fst (id_fields (io S))). ids name = ids' name"
  shows "query_iter depth S ids children parents objects_per_report with_metadata c =
         query_iter depth S ids' children parents objects_per_report with_metadata c"
  using id_queries_cong [OF assms]
  by (simp add: query_iter_def obj_list_queries_def)

theorem query_iter_ignores_unknown_ids_witness:
  "query_iter 1000 (Schema_v04_00 True (\<lambda>d. True) (\<lambda>d. True))
     [''tests'' \<mapsto> [[''origin:1'']], ''bogus'' \<mapsto> [[''x'', ''y'']]] False True 0 False
     (new_connection True)
   = query_iter 1000 (Schema_v04_00 True (\<lambda>d. True) (\<lambda>d. True))
     [''tests'' \<mapsto> [[''origin:1'']]] False True 0 False (new_connection True)"
  by (rule query_iter_ignores_unknown_ids)
    (simp add: Schema_v04_00_def io_V4_0_def)

section \<open>Chunking: the documents of dump\_iter and query\_iter\<close>

lemma map_of_add_object:
  "map_of (add_object ls x) name =
     (if name = fst x then Some ((case map_of ls name of None \<Rightarrow> [] | Some objs \<Rightarrow> objs) @ [snd x])
      else map_of ls name)"
  by (simp add: add_object_def AList.update_conv')

lemma keys_add_object: "fst ` set (add_object ls x) = insert (fst x) (fst ` set ls)"
  by (simp add: add_object_def AList.dom_update)

lemma distinct_add_object:
  "distinct (map fst ls) \<Longrightarrow> distinct (map fst (add_object ls x))"
  by (simp add: add_object_def AList.distinct_update)

lemma foldl_add_object_snoc:
  "foldl add_object ls (xs @ [x]) = add_object (foldl add_object ls xs) x"
  by simp

lemma map_of_foldl_add_object:
  "map_of (foldl add_object [] xs) name =
     (if name \<in> fst ` set xs then Some (map snd (filter (\<lambda>x. fst x = name) xs)) else None)"
proof (induction xs rule: rev_induct)
  case Nil
  then show ?case by simp
next
  case (snoc x xs)
  have empty: "filter (\<lambda>y. fst y = k) xs = []" if "k \<notin> fst ` set xs" for k
    using that by (auto simp add: filter_empty_conv)
  show ?case
  proof (cases "name = fst x")
    case True
    with snoc empty [of "fst x"] show ?thesis
      by (simp add: map_of_add_object)
  next
    case False
    with snoc show ?thesis
      by (auto simp add: map_of_add_object)
  qed
qed

lemma distinct_foldl_add_object: "distinct (map fst (foldl add_object [] xs))"
  by (induction xs rule: rev_induct) (simp_all add: distinct_add_object)

lemma objects_of_report_of:
  "objects_of (report_of V xs) name = map snd (filter (\<lambda>x. fst x = name) xs)"
proof -
  have "name \<notin> fst ` set xs \<Longrightarrow> filter (\<lambda>x. fst x = name) xs = []"
    by (auto simp add: filter_empty_conv)
  then show ?thesis
    by (simp add: objects_of_def report_of_def map_of_foldl_add_object)
qed

lemma sum_list_update:
  "distinct (map fst ls) \<Longrightarrow>
   sum_list (map (\<lambda>(name, objs). length objs) (AList.update k v ls)) + 
     (case map_of ls k of None \<Rightarrow> 0 | Some objs \<Rightarrow> length objs) =
   sum_list (map (\<lambda>(name, objs). length objs) ls) + length v"
proof (induction ls)
  case Nil
  then show ?case by simp
next
  case (Cons p ls)
  obtain a b where p: "p = (a, b)" by (cases p)
  show ?case
  proof (cases "a = k")
    case True
    with Cons.prems p show ?thesis by simp
  next
    case False
    with Cons p show ?thesis by simp
  qed
qed

lemma object_count_report_of: "object_count (report_of V xs) = length xs"
proof (induction xs rule: rev_induct)
  case Nil
  then show ?case by (simp add: object_count_def report_of_def)
next
  case (snoc x xs)
  let ?ls = "foldl add_object [] xs"
  have d: "distinct (map fst ?ls)"
    by (rule distinct_foldl_add_object)
  from sum_list_update [OF d, of "fst x"
      "(case map_of ?ls (fst x) of None \<Rightarrow> [] | Some objs \<Rightarrow> objs) @ [snd x]"]
  have "sum_list (map (\<lambda>(name, objs). length objs) (add_object ?ls x)) =
      sum_list (map (\<lambda>(name, objs). length objs) ?ls) + 1"
    by (simp add: add_object_def split: option.splits)
  with snoc show ?case
    by (simp add: object_count_def report_of_def)
qed

lemma yield_report_passes:
  "yield_report S data rest = (if passes S data then Yield data # rest else [Raise AssertionError])"
  by (auto simp add: yield_report_def passes_def)

lemma io_new_report_of: "io_new V = report_of V []"
  by (simp add: io_new_def report_of_def)

lemma lists_report_of: "lists (report_of V xs) = foldl add_object [] xs"
  by (simp add: report_of_def)

lemma report_of_snoc:
  "(report_of V xs)\<lparr>lists := add_object (foldl add_object [] xs) x\<rparr> = report_of V (xs @ [x])"
  by (simp add: report_of_def)

lemma append_first_object:
  assumes "t \<notin> fst ` set cur"
  shows "(report_of V cur\<lparr>lists := AList.update t [] (lists (report_of V cur))\<rparr>)
           \<lparr>lists := AList.update t ([] @ [obj])
              (lists (report_of V cur\<lparr>lists := AList.update t [] (lists (report_of V cur))\<rparr>))\<rparr>
         = report_of V (cur @ [(t, obj)])"
proof -
  have "map_of (foldl add_object [] cur) t = None"
    using assms by (simp add: map_of_foldl_add_object)
  then have "add_object (foldl add_object [] cur) (t, obj) =
      AList.update t [obj] (foldl add_object [] cur)"
    by (simp add: add_object_def)
  then show ?thesis
    by (simp add: report_of_def)
qed

lemma append_next_object:
  assumes "map_of (foldl add_object [] cur) t = Some l"
  shows "(report_of V cur)\<lparr>lists := AList.update t (l @ [obj]) (lists (report_of V cur))\<rparr>
         = report_of V (cur @ [(t, obj)])"
proof -
  have "add_object (foldl add_object [] cur) (t, obj) =
      AList.update t (l @ [obj]) (foldl add_object [] cur)"
    using assms by (simp add: add_object_def)
  then show ?thesis
    by (simp add: report_of_def)
qed

lemma iter_objs_chunks:
  assumes tables: "\<And>cur. n = 0 \<or> length cur < n \<Longrightarrow> fst ` set cur \<inter> set rest = {} \<Longrightarrow>
      returns (iter_tables S fetch n rest (length cur) (report_of (io S) cur)) \<Longrightarrow>
      iter_tables S fetch n rest (length cur) (report_of (io S) cur) =
        map (Yield \<circ> report_of (io S)) (chunks n cur (stream fetch rest))"
    and "t \<notin> set rest"
  shows "n = 0 \<or> length cur < n \<Longrightarrow> fst ` set cur \<inter> set rest = {} \<Longrightarrow>
      (obj_list = None \<and> t \<notin> fst ` set cur)
        \<or> (\<exists>l. obj_list = Some l \<and> map_of (foldl add_object [] cur) t = Some l) \<Longrightarrow>
      returns (iter_objs S fetch n rest t objs obj_list (length cur) (report_of (io S) cur)) \<Longrightarrow>
      iter_objs S fetch n rest t objs obj_list (length cur) (report_of (io S) cur) =
        map (Yield \<circ> report_of (io S)) (chunks n cur (map (Pair t) objs @ stream fetch rest))"
proof (induction objs arbitrary: cur obj_list)
  case Nil
  then show ?case
    using tables [of cur] by simp
next
  case (Cons obj objs)
  let ?R = "report_of (io S)"
  let ?cur = "cur @ [(t, obj)]"
  let ?l1 = "(case obj_list of None \<Rightarrow> [] | Some l \<Rightarrow> l) @ [obj]"
  let ?data1 = "(case obj_list of
      None \<Rightarrow> (?R cur)\<lparr>lists := AList.update t [] (lists (?R cur))\<rparr> | Some l \<Rightarrow> ?R cur)"
  have data2: "?data1\<lparr>lists := AList.update t ?l1 (lists ?data1)\<rparr> = ?R ?cur"
    using Cons.prems(3)
  proof
    assume "obj_list = None \<and> t \<notin> fst ` set cur"
    then show ?thesis
      using append_first_object [where t = t and cur = cur and V = "io S" and obj = obj] by simp
  next
    assume "\<exists>l. obj_list = Some l \<and> map_of (foldl add_object [] cur) t = Some l"
    then obtain l where l: "obj_list = Some l" "map_of (foldl add_object [] cur) t = Some l"
      by blast
    then show ?thesis
      using append_next_object [where t = t and cur = cur and V = "io S" and obj = obj and l = l] by simp
  qed
  have l1: "map_of (foldl add_object [] ?cur) t = Some ?l1"
    using Cons.prems(3)
  proof
    assume a: "obj_list = None \<and> t \<notin> fst ` set cur"
    then have "map_of (foldl add_object [] cur) t = None"
      by (simp add: map_of_foldl_add_object)
    with a show ?thesis
      by (simp add: map_of_add_object)
  next
    assume "\<exists>l. obj_list = Some l \<and> map_of (foldl add_object [] cur) t = Some l"
    then show ?thesis
      by (auto simp add: map_of_add_object)
  qed
  have disj: "fst ` set ?cur \<inter> set rest = {}"
    using Cons.prems(2) assms(2) by auto
  show ?case
  proof (cases "n \<noteq> 0 \<and> n \<le> length cur + 1")
    case True
    have unfold: "iter_objs S fetch n rest t (obj # objs) obj_list (length cur) (?R cur) =
        yield_report S (?R ?cur) (iter_objs S fetch n rest t objs None 0 (io_new (io S)))"
      using True data2 by (simp add: Let_def)
    with Cons.prems(4) have ok: "passes S (?R ?cur)"
      and rest_returns: "returns (iter_objs S fetch n rest t objs None 0 (io_new (io S)))"
      by (auto simp add: yield_report_passes split: if_splits)
    have "iter_objs S fetch n rest t objs None (length ([] :: (string \<times> 'a) list)) (?R []) =
        map (Yield \<circ> ?R) (chunks n [] (map (Pair t) objs @ stream fetch rest))"
      using True rest_returns
      by (intro Cons.IH) (simp_all add: io_new_report_of)
    then show ?thesis
      using unfold ok True by (simp add: yield_report_passes io_new_report_of)
  next
    case False
    have unfold: "iter_objs S fetch n rest t (obj # objs) obj_list (length cur) (?R cur) =
        iter_objs S fetch n rest t objs (Some ?l1) (length ?cur) (?R ?cur)"
      using False data2 by (auto simp add: Let_def)
    have "iter_objs S fetch n rest t objs (Some ?l1) (length ?cur) (?R ?cur) =
        map (Yield \<circ> ?R) (chunks n ?cur (map (Pair t) objs @ stream fetch rest))"
    proof (rule Cons.IH)
      show "n = 0 \<or> length ?cur < n"
        using False by auto
      show "fst ` set ?cur \<inter> set rest = {}"
        by (rule disj)
      show "Some ?l1 = None \<and> t \<notin> fst ` set ?cur
          \<or> (\<exists>l. Some ?l1 = Some l \<and> map_of (foldl add_object [] ?cur) t = Some l)"
        using l1 by blast
      show "returns (iter_objs S fetch n rest t objs (Some ?l1) (length ?cur) (?R ?cur))"
        using Cons.prems(4) unfold by simp
    qed
    then show ?thesis
      using unfold False by auto
  qed
qed

lemma stream_Cons:
  "stream fetch (t # ts) = map (Pair t) (fetched fetch t) @ stream fetch ts"
  by (simp add: stream_def)

lemma iter_tables_chunks:
  "distinct names \<Longrightarrow> n = 0 \<or> length cur < n \<Longrightarrow> fst ` set cur \<inter> set names = {} \<Longrightarrow>
   returns (iter_tables S fetch n names (length cur) (report_of (io S) cur)) \<Longrightarrow>
   iter_tables S fetch n names (length cur) (report_of (io S) cur) =
     map (Yield \<circ> report_of (io S)) (chunks n cur (stream fetch names))"
proof (induction names arbitrary: cur)
  case Nil
  then show ?case
    by (auto simp add: stream_def yield_report_passes split: if_splits)
next
  case (Cons t ts)
  have d: "distinct ts"
    using Cons.prems(1) by simp
  note tables = Cons.IH [OF d]
  have fresh: "t \<notin> set ts" "t \<notin> fst ` set cur" "fst ` set cur \<inter> set ts = {}"
    using Cons.prems(1,3) by auto
  show ?case
  proof (cases "fetch t")
    case None
    then have "fetched fetch t = []"
      by (simp add: fetched_def)
    with None Cons.prems tables [of cur] fresh show ?thesis
      by (simp add: stream_Cons)
  next
    case (Some r)
    show ?thesis
    proof (cases r)
      case (Inl exc)
      with Some Cons.prems(4) show ?thesis by simp
    next
      case (Inr objs)
      with Some have f: "fetched fetch t = objs"
        by (simp add: fetched_def)
      have "iter_objs S fetch n ts t objs None (length cur) (report_of (io S) cur) =
          map (Yield \<circ> report_of (io S)) (chunks n cur (map (Pair t) objs @ stream fetch ts))"
        using Cons.prems(2,4) fresh Some Inr
        by (intro iter_objs_chunks [OF tables]) simp_all
      with Some Inr f show ?thesis
        by (simp add: stream_Cons)
    qed
  qed
qed

lemma returns_yield_report:
  "passes S data \<Longrightarrow> returns (yield_report S data items) = returns items"
  by (simp add: yield_report_passes)

lemma iter_returns:
  shows "(\<forall>data. passes S data) \<longrightarrow> (\<forall>t \<in> set names. \<forall>exc. fetch t \<noteq> Some (Inl exc)) \<longrightarrow>
           returns (iter_tables S fetch n names obj_num data)"
    and "(\<forall>data. passes S data) \<longrightarrow> (\<forall>t \<in> set names. \<forall>exc. fetch t \<noteq> Some (Inl exc)) \<longrightarrow>
           returns (iter_objs S fetch n names t objs obj_list obj_num data)"
proof (induction S fetch n names obj_num data and S fetch n names t objs obj_list obj_num data
    rule: iter_tables_iter_objs.induct)
  case (1 S fetch objects_per_report obj_num data)
  then show ?case
    by (simp add: yield_report_passes)
next
  case (2 S fetch objects_per_report table_name rest obj_num data)
  then show ?case
    by (auto split: option.splits sum.splits)
next
  case (3 S fetch objects_per_report rest table_name obj_list obj_num data)
  then show ?case by simp
next
  case (4 S fetch objects_per_report rest table_name obj objs obj_list obj_num data)
  then show ?case
    by (simp add: Let_def yield_report_passes)
qed

lemma concat_chunks: "concat (chunks n cur xs) = cur @ xs"
  by (induction xs arbitrary: cur) auto

lemma chunks_nonempty: "c \<in> set (chunks n cur xs) \<Longrightarrow> c \<noteq> []"
  by (induction xs arbitrary: cur) (auto split: if_splits)

lemma chunks_zero: "chunks 0 cur xs = (if cur @ xs = [] then [] else [cur @ xs])"
  by (induction xs arbitrary: cur) auto

lemma length_chunks:
  "0 < n \<Longrightarrow> length cur < n \<Longrightarrow>
   length (chunks n cur xs) = (length cur + length xs + n - 1) div n"
proof (induction xs arbitrary: cur)
  case Nil
  then show ?case
  proof (cases "cur = []")
    case True
    with Nil show ?thesis by simp
  next
    case False
    then obtain m where m: "length cur = Suc m"
      by (cases cur) simp_all
    with Nil.prems have "m < n"
      by simp
    moreover have "(n + m) div n = m div n + 1"
      using Nil.prems(1) by (intro div_add_self1) simp
    ultimately have "(n + m) div n = 1"
      by simp
    moreover have "length cur + n - 1 = n + m"
      using m by simp
    ultimately have "(length cur + n - 1) div n = 1"
      by simp
    with False show ?thesis by simp
  qed
next
  case (Cons x xs)
  show ?case
  proof (cases "n \<le> length cur + 1")
    case True
    with Cons.prems have n: "length cur + 1 = n"
      by simp
    have "length (chunks n [] xs) = (length xs + n - 1) div n"
      using Cons.IH [of "[]"] Cons.prems(1) by simp
    moreover have "(length cur + length (x # xs) + n - 1) div n = Suc ((length xs + n - 1) div n)"
    proof -
      have step: "(m + n) div n = Suc (m div n)" for m
        using Cons.prems(1) div_add_self2 [of n m] by simp
      have "length cur + length (x # xs) + n - 1 = (length xs + n - 1) + n"
        using n Cons.prems(1) by simp
      then show ?thesis
        by (simp only: step)
    qed
    ultimately show ?thesis
      using True Cons.prems(1) by simp
  next
    case False
    then have "length (cur @ [x]) < n"
      by simp
    from Cons.IH [OF Cons.prems(1) this] False show ?thesis
      by simp
  qed
qed

lemma chunks_full:
  "0 < n \<Longrightarrow> length cur < n \<Longrightarrow> c \<in> set (butlast (chunks n cur xs)) \<Longrightarrow> length c = n"
proof (induction xs arbitrary: cur)
  case Nil
  then show ?case by (simp split: if_splits)
next
  case (Cons x xs)
  show ?case
  proof (cases "n \<le> length cur + 1")
    case True
    with Cons.prems have n: "length cur + 1 = n"
      by simp
    from Cons.prems(3) True Cons.prems(1)
    have "c \<in> set (butlast ((cur @ [x]) # chunks n [] xs))"
      by simp
    then have "c = cur @ [x] \<or> c \<in> set (butlast (chunks n [] xs))"
      by (auto split: if_splits)
    then show ?thesis
      using n Cons.IH [of "[]"] Cons.prems(1) by auto
  next
    case False
    then have "length (cur @ [x]) < n"
      by simp
    from Cons.IH [OF Cons.prems(1) this] Cons.prems(3) False show ?thesis
      by simp
  qed
qed

lemma chunks_at_most:
  "0 < n \<Longrightarrow> length cur < n \<Longrightarrow> c \<in> set (chunks n cur xs) \<Longrightarrow> length c \<le> n"
proof (induction xs arbitrary: cur)
  case Nil
  then show ?case by (simp split: if_splits)
next
  case (Cons x xs)
  show ?case
  proof (cases "n \<le> length cur + 1")
    case True
    with Cons.prems have n: "length cur + 1 = n"
      by simp
    from Cons.prems(3) True Cons.prems(1)
    have "c = cur @ [x] \<or> c \<in> set (chunks n [] xs)"
      by simp
    then show ?thesis
      using n Cons.IH [of "[]"] Cons.prems(1) by auto
  next
    case False
    then have "length (cur @ [x]) < n"
      by simp
    from Cons.IH [OF Cons.prems(1) this] Cons.prems(3) False show ?thesis
      by simp
  qed
qed

lemma filter_stream:
  "distinct names \<Longrightarrow>
   map snd (filter (\<lambda>x. fst x = name) (stream fetch names)) =
     (if name \<in> set names then fetched fetch name else [])"
proof (induction names)
  case Nil
  then show ?case by (simp add: stream_def)
next
  case (Cons t ts)
  have same: "filter (\<lambda>x. fst x = t) (map (Pair t) objs) = map (Pair t) objs" for objs :: "'a list"
    by (induction objs) simp_all
  have other: "filter (\<lambda>x. fst x = name) (map (Pair t) objs) = []"
    if "name \<noteq> t" for objs :: "'a list"
    using that by (induction objs) auto
  show ?case
  proof (cases "name = t")
    case True
    with Cons show ?thesis
      by (simp add: stream_Cons same comp_def)
  next
    case False
    with Cons show ?thesis
      by (simp add: stream_Cons other)
  qed
qed

lemma length_stream:
  "length (stream fetch names) = sum_list (map (\<lambda>name. length (fetched fetch name)) names)"
  by (induction names) (simp_all add: stream_def)

lemma yielded_map_Yield: "yielded (map (Yield \<circ> f) xs) = map f xs"
  by (induction xs) simp_all

lemma iter_tables_yielded:
  assumes "distinct names"
    and "returns (iter_tables S fetch n names 0 (io_new (io S)))"
  shows "yielded (iter_tables S fetch n names 0 (io_new (io S))) =
     map (report_of (io S)) (chunks n [] (stream fetch names))"
proof -
  have "iter_tables S fetch n names (length ([] :: (string \<times> 'a) list)) (report_of (io S) []) =
      map (Yield \<circ> report_of (io S)) (chunks n [] (stream fetch names))"
    using assms by (intro iter_tables_chunks) (auto simp add: io_new_report_of)
  then show ?thesis
    by (simp add: io_new_report_of yielded_map_Yield)
qed

lemma chunked_chunks:
  assumes "distinct names"
  shows "chunked n (map (report_of V) (chunks n [] (stream fetch names))) (fetched fetch) names"
proof -
  let ?xs = "stream fetch names"
  let ?chs = "chunks n [] ?xs"
  let ?k = "sum_list (map (\<lambda>name. length (fetched fetch name)) names)"
  have k: "length ?xs = ?k"
    by (rule length_stream)
  have count: "0 < n \<Longrightarrow> length (map (report_of V) ?chs) = (?k + n - 1) div n"
    using length_chunks [of n "[]" ?xs] k by simp
  have full: "0 < n \<Longrightarrow> \<forall>d \<in> set (butlast (map (report_of V) ?chs)). object_count d = n"
    using chunks_full [of n "[]" _ ?xs]
    by (auto simp add: map_butlast [symmetric] object_count_report_of)
  have most: "0 < n \<Longrightarrow> \<forall>d \<in> set (map (report_of V) ?chs). object_count d \<le> n"
    using chunks_at_most [of n "[]" _ ?xs]
    by (auto simp add: object_count_report_of)
  have "(?xs = []) = (?k = 0)"
    using k by (metis length_0_conv)
  then have zero: "n = 0 \<Longrightarrow> length (map (report_of V) ?chs) = (if ?k = 0 then 0 else 1)"
    by (simp add: chunks_zero)
  have nonempty: "\<forall>d \<in> set (map (report_of V) ?chs). 0 < object_count d"
    using chunks_nonempty [of _ n "[]" ?xs]
    by (auto simp add: object_count_report_of)
  have objs: "concat (map (\<lambda>d. objects_of d name) (map (report_of V) ?chs)) =
      (if name \<in> set names then fetched fetch name else [])" for name
  proof -
    have "concat (map (\<lambda>d. objects_of d name) (map (report_of V) ?chs)) =
        concat (map (\<lambda>c. map snd (filter (\<lambda>x. fst x = name) c)) ?chs)"
      by (simp add: objects_of_report_of comp_def)
    also have "\<dots> = map snd (filter (\<lambda>x. fst x = name) (concat ?chs))"
      by (simp add: map_concat filter_concat comp_def)
    also have "\<dots> = (if name \<in> set names then fetched fetch name else [])"
      using assms by (simp add: concat_chunks filter_stream)
    finally show ?thesis .
  qed
  show ?thesis
    unfolding chunked_def Let_def
  proof (intro conjI allI impI)
    assume "0 < n"
    then show "length (map (report_of V) ?chs) = (?k + n - 1) div n"
      by (rule count)
  next
    assume "0 < n"
    then show "\<forall>d \<in> set (butlast (map (report_of V) ?chs)). object_count d = n"
      by (rule full)
  next
    assume "0 < n"
    then show "\<forall>d \<in> set (map (report_of V) ?chs). object_count d \<le> n"
      by (rule most)
  next
    assume "n = 0"
    then show "length (map (report_of V) ?chs) = (if ?k = 0 then 0 else 1)"
      by (rule zero)
  next
    show "\<forall>d \<in> set (map (report_of V) ?chs). 0 < object_count d"
      by (rule nonempty)
  next
    fix name
    show "concat (map (\<lambda>d. objects_of d name) (map (report_of V) ?chs)) =
        (if name \<in> set names then fetched fetch name else [])"
      by (rule objs)
  qed
qed

lemma update_same_keys:
  "map_of qs k = Some v \<Longrightarrow> map fst (AList.update k v' qs) = map fst qs"
  by (induction qs) (auto split: if_splits)

lemma add_parents_loop_Cons:
  "add_parents_loop depth G obj_list_name (child_list_name # rest) qs = Inr qs' \<Longrightarrow>
   \<exists>qs1 child_query query.
     add_parents depth G child_list_name qs = Inr qs1
     \<and> map_of qs1 child_list_name = Some child_query
     \<and> map_of qs1 obj_list_name = Some query
     \<and> add_parents_loop depth G obj_list_name rest
          (if selects child_query \<noteq> []
           then AList.update obj_list_name
                  (append_parents obj_list_name child_list_name child_query query) qs1
           else qs1) = Inr qs'"
  by (auto split: sum.splits option.splits)

lemma add_parents_Suc:
  "add_parents (Suc depth) G obj_list_name qs = Inr qs' \<Longrightarrow>
   \<exists>query child_list_names. map_of qs obj_list_name = Some query
     \<and> map_of G obj_list_name = Some child_list_names
     \<and> add_parents_loop depth G obj_list_name child_list_names qs = Inr qs'"
  by (simp split: option.splits)

lemma add_parents_loop_keys:
  assumes walk: "\<And>name qs qs'. add_parents depth G name qs = Inr qs' \<Longrightarrow>
      map fst qs' = map fst (qs :: 'v queries)"
  shows "add_parents_loop depth G obj_list_name names qs = Inr qs' \<Longrightarrow>
      map fst qs' = map fst (qs :: 'v queries)"
proof (induction names arbitrary: qs)
  case Nil
  then show ?case by simp
next
  case (Cons child_list_name rest)
  from add_parents_loop_Cons [OF Cons.prems]
  obtain qs1 child_query query where qs1: "add_parents depth G child_list_name qs = Inr qs1"
    and q: "map_of qs1 obj_list_name = Some query"
    and rest: "add_parents_loop depth G obj_list_name rest
          (if selects child_query \<noteq> []
           then AList.update obj_list_name
                  (append_parents obj_list_name child_list_name child_query query) qs1
           else qs1) = Inr qs'"
    by blast
  have "map fst qs' = map fst (if selects child_query \<noteq> []
           then AList.update obj_list_name
                  (append_parents obj_list_name child_list_name child_query query) qs1
           else qs1)"
    by (rule Cons.IH [OF rest])
  also have "\<dots> = map fst qs1"
    using q by (simp add: update_same_keys)
  also have "\<dots> = map fst qs"
    by (rule walk [OF qs1])
  finally show ?case .
qed

lemma add_parents_keys:
  "add_parents depth G obj_list_name qs = Inr qs' \<Longrightarrow> map fst qs' = map fst qs"
proof (induction depth arbitrary: obj_list_name qs qs')
  case 0
  then show ?case by simp
next
  case (Suc depth)
  from add_parents_Suc [OF Suc.prems]
  obtain child_list_names
    where loop: "add_parents_loop depth G obj_list_name child_list_names qs = Inr qs'"
    by blast
  have walk: "\<And>name qs qs'. add_parents depth G name qs = Inr qs' \<Longrightarrow>
      map fst qs' = map fst (qs :: 'a queries)"
    by (rule Suc.IH)
  from add_parents_loop_keys [OF walk loop] show ?case .
qed

lemma add_children_loop_Cons:
  "add_children_loop depth G obj_list_name (child_list_name # rest) qs = Inr qs' \<Longrightarrow>
   \<exists>query qs1 qs2.
     map_of qs obj_list_name = Some query
     \<and> (selects query = [] \<and> qs1 = qs
        \<or> (\<exists>child_query. map_of qs child_list_name = Some child_query
             \<and> qs1 = AList.update child_list_name
                  (append_children obj_list_name child_list_name query child_query) qs))
     \<and> add_children depth G child_list_name qs1 = Inr qs2
     \<and> add_children_loop depth G obj_list_name rest qs2 = Inr qs'"
  by (auto split: sum.splits option.splits if_splits)

lemma add_children_Suc:
  "add_children (Suc depth) G obj_list_name qs = Inr qs' \<Longrightarrow>
   \<exists>query child_list_names. map_of qs obj_list_name = Some query
     \<and> map_of G obj_list_name = Some child_list_names
     \<and> add_children_loop depth G obj_list_name child_list_names qs = Inr qs'"
  by (simp split: option.splits)

lemma add_children_loop_keys:
  assumes walk: "\<And>name qs qs'. add_children depth G name qs = Inr qs' \<Longrightarrow>
      map fst qs' = map fst (qs :: 'v queries)"
  shows "add_children_loop depth G obj_list_name names qs = Inr qs' \<Longrightarrow>
      map fst qs' = map fst (qs :: 'v queries)"
proof (induction names arbitrary: qs)
  case Nil
  then show ?case by simp
next
  case (Cons child_list_name rest)
  from add_children_loop_Cons [OF Cons.prems]
  obtain query qs1 qs2 where
    qs1: "selects query = [] \<and> qs1 = qs
        \<or> (\<exists>child_query. map_of qs child_list_name = Some child_query
             \<and> qs1 = AList.update child_list_name
                  (append_children obj_list_name child_list_name query child_query) qs)"
    and qs2: "add_children depth G child_list_name qs1 = Inr qs2"
    and rest: "add_children_loop depth G obj_list_name rest qs2 = Inr qs'"
    by blast
  have "map fst qs' = map fst qs2"
    by (rule Cons.IH [OF rest])
  also have "\<dots> = map fst qs1"
    by (rule walk [OF qs2])
  also have "\<dots> = map fst qs"
    using qs1 by (auto simp add: update_same_keys)
  finally show ?case .
qed

lemma add_children_keys:
  "add_children depth G obj_list_name qs = Inr qs' \<Longrightarrow> map fst qs' = map fst qs"
proof (induction depth arbitrary: obj_list_name qs qs')
  case 0
  then show ?case by simp
next
  case (Suc depth)
  from add_children_Suc [OF Suc.prems]
  obtain child_list_names
    where loop: "add_children_loop depth G obj_list_name child_list_names qs = Inr qs'"
    by blast
  have walk: "\<And>name qs qs'. add_children depth G name qs = Inr qs' \<Longrightarrow>
      map fst qs' = map fst (qs :: 'a queries)"
    by (rule Suc.IH)
  from add_children_loop_keys [OF walk loop] show ?case .
qed

lemma from_roots_keys:
  assumes "\<And>name qs qs'. walk name qs = Inr qs' \<Longrightarrow> map fst qs' = map fst (qs :: 'v queries)"
  shows "from_roots walk roots qs = Inr qs' \<Longrightarrow> map fst qs' = map fst qs"
proof (induction roots arbitrary: qs)
  case Nil
  then show ?case by simp
next
  case (Cons r roots)
  then obtain qs1 where qs1: "walk r qs = Inr qs1" and rest: "from_roots walk roots qs1 = Inr qs'"
    by (auto split: sum.splits)
  from Cons.IH [OF rest] assms [OF qs1] show ?case
    by simp
qed

lemma expand_keys:
  assumes "\<And>name qs qs'. walk name qs = Inr qs' \<Longrightarrow> map fst qs' = map fst (qs :: 'v queries)"
  shows "expand G walk requested qs = Inr qs' \<Longrightarrow> map fst qs' = map fst qs"
  using from_roots_keys [of walk, OF assms]
  by (auto simp add: expand_def split: if_splits option.splits)

lemma keys_id_queries: "map fst (id_queries V ids) = map fst (id_fields V)"
  by (simp add: id_queries_def comp_def case_prod_beta)

lemma obj_list_queries_keys:
  assumes "obj_list_queries depth V ids children parents = Inr qs"
  shows "map fst qs = map fst (id_fields V)"
proof -
  from assms obtain qs1
    where p: "expand (graph V) (add_parents depth (graph V)) parents (id_queries V ids) = Inr qs1"
      and c: "expand (graph V) (add_children depth (graph V)) children qs1 = Inr qs"
    by (auto simp add: obj_list_queries_def split: sum.splits)
  have "map fst qs = map fst qs1"
    using expand_keys [where walk = "add_children depth (graph V)", OF _ c] add_children_keys
    by blast
  also have "\<dots> = map fst (id_queries V ids)"
    using expand_keys [where walk = "add_parents depth (graph V)", OF _ p] add_parents_keys
    by blast
  finally show ?thesis
    by (simp add: keys_id_queries)
qed

lemma dump_iter_chunked:
  assumes "distinct (map fst (TABLES S))"
    and "returns (dump_iter S n with_metadata after until c)"
  shows "chunked n (yielded (dump_iter S n with_metadata after until c))
           (dumped S with_metadata after until c) (map fst (TABLES S))"
proof -
  let ?fetch = "dump_fetch S with_metadata after until (tables c)"
  have "yielded (dump_iter S n with_metadata after until c) =
      map (report_of (io S)) (chunks n [] (stream ?fetch (map fst (TABLES S))))"
    using assms unfolding dump_iter_def by (rule iter_tables_yielded)
  moreover have "dumped S with_metadata after until c = fetched ?fetch"
    by (simp add: dumped_def fun_eq_iff)
  ultimately show ?thesis
    using chunked_chunks [OF assms(1), of n "io S" ?fetch] by simp
qed

lemma query_iter_chunked:
  assumes "distinct (map fst (id_fields (io S)))"
    and "returns (query_iter depth S ids children parents n with_metadata c)"
  shows "chunked n (yielded (query_iter depth S ids children parents n with_metadata c))
           (queried depth S ids children parents with_metadata c) (map fst (id_fields (io S)))"
proof -
  from assms(2) obtain qs where qs: "obj_list_queries depth (io S) ids children parents = Inr qs"
    by (cases "obj_list_queries depth (io S) ids children parents")
      (simp_all add: query_iter_def)
  let ?fetch = "query_fetch S with_metadata (tables c) qs"
  have keys: "map fst qs = map fst (id_fields (io S))"
    using qs by (rule obj_list_queries_keys)
  have run: "query_iter depth S ids children parents n with_metadata c =
      iter_tables S ?fetch n (map fst (id_fields (io S))) 0 (io_new (io S))"
    using qs keys by (simp add: query_iter_def)
  have "yielded (query_iter depth S ids children parents n with_metadata c) =
      map (report_of (io S)) (chunks n [] (stream ?fetch (map fst (id_fields (io S)))))"
    using assms unfolding run by (rule iter_tables_yielded)
  moreover have "queried depth S ids children parents with_metadata c = fetched ?fetch"
    using qs by (simp add: queried_def fun_eq_iff)
  ultimately show ?thesis
    using chunked_chunks [OF assms(1), of n "io S" ?fetch] by simp
qed

lemma dump_iter_returns:
  assumes "\<forall>data. passes S data"
    and "\<forall>name \<in> set (map fst (TABLES S)). \<forall>exc.
           dump_fetch S with_metadata after until (tables c) name \<noteq> Some (Inl exc)"
  shows "returns (dump_iter S n with_metadata after until c)"
  unfolding dump_iter_def
  using iter_returns(1) [of S "map fst (TABLES S)"
      "dump_fetch S with_metadata after until (tables c)" n 0 "io_new (io S)"] assms
  by blast

lemma query_iter_returns:
  assumes "\<forall>data. passes S data"
    and "obj_list_queries depth (io S) ids children parents = Inr qs"
    and "\<forall>name \<in> set (map fst qs). \<forall>exc.
           query_fetch S with_metadata (tables c) qs name \<noteq> Some (Inl exc)"
  shows "returns (query_iter depth S ids children parents n with_metadata c)"
  using iter_returns(1) [of S "map fst qs"
      "query_fetch S with_metadata (tables c) qs" n 0 "io_new (io S)"] assms
  by (simp add: query_iter_def)

text \<open>
  C1, as the code has it. Where \<open>dump_iter\<close> or \<open>query_iter\<close> ends without an exception,
  its documents are the objects it goes through, \<open>k\<close> in all, in chunks of \<open>n\<close>
  (\<open>chunked\<close>): for \<open>n > 0\<close> it yields \<open>ceil(k / n)\<close> documents, each but the last with
  exactly \<open>n\<close> objects and the last with at most \<open>n\<close>; for \<open>n = 0\<close> it yields one
  document, and none when there is no object; no document is empty; and the objects of
  every list, taken from the documents in order, are the objects of that list. It ends
  without an exception when no statement raises one and every document passes the
  assertions in front of \<^verbatim>\<open>yield\<close>.
\<close>

theorem chunks_of_objects:
  "(distinct (map fst (TABLES S)) \<and> returns (dump_iter S n with_metadata after until c) \<longrightarrow>
      chunked n (yielded (dump_iter S n with_metadata after until c))
        (dumped S with_metadata after until c) (map fst (TABLES S)))
   \<and> (distinct (map fst (id_fields (io S)))
       \<and> returns (query_iter depth S ids children parents n with_metadata c) \<longrightarrow>
      chunked n (yielded (query_iter depth S ids children parents n with_metadata c))
        (queried depth S ids children parents with_metadata c) (map fst (id_fields (io S))))
   \<and> ((\<forall>data. passes S data)
       \<and> (\<forall>name \<in> set (map fst (TABLES S)). \<forall>exc.
             dump_fetch S with_metadata after until (tables c) name \<noteq> Some (Inl exc)) \<longrightarrow>
      returns (dump_iter S n with_metadata after until c))
   \<and> ((\<forall>data. passes S data)
       \<and> (\<exists>qs. obj_list_queries depth (io S) ids children parents = Inr qs
             \<and> (\<forall>name \<in> set (map fst qs). \<forall>exc.
                   query_fetch S with_metadata (tables c) qs name \<noteq> Some (Inl exc))) \<longrightarrow>
      returns (query_iter depth S ids children parents n with_metadata c))"
  using dump_iter_chunked [of S n with_metadata after until c]
    query_iter_chunked [of S depth ids children parents n with_metadata c]
    dump_iter_returns [of S with_metadata after until c n]
    query_iter_returns [of S depth ids children parents _ with_metadata c n]
  by blast

lemma passes_example: "passes example_schema data"
  by (simp add: passes_def example_schema_def Schema_v04_00_def io_V4_0_def)

lemma dump_fetch_example:
  "dump_fetch example_schema False (\<lambda>name. None) (\<lambda>name. None)
     example_db name =
   (if name = ''checkouts''
    then Some (Inr [checkout_row ''origin:c1'' ''first'', checkout_row ''origin:c2'' ''second''])
    else if name = ''builds'' then Some (Inr [build_row ''origin:b1'' (Some ''origin:c1'')])
    else if name = ''tests''
    then Some (Inr [test_row ''origin:t1'' (Some ''origin:b1''),
                    test_row ''origin:t2'' (Some ''origin:b1'')])
    else Some (Inl (KeyError name)))"
  by (simp add: dump_fetch_def example_schema_def Schema_v04_00_def TABLES_v04_00_def TABLES_ARGS_v04_00_def
      example_db_def)

theorem chunks_of_objects_witness:
  "distinct (map fst (TABLES example_schema))
   \<and> returns (dump_iter example_schema 2 False
        (\<lambda>name. None) (\<lambda>name. None) example_connection)
   \<and> map object_count
        (yielded (dump_iter example_schema 2 False
           (\<lambda>name. None) (\<lambda>name. None) example_connection)) = [2, 2, 1]
   \<and> chunked 2
        (yielded (dump_iter example_schema 2 False
           (\<lambda>name. None) (\<lambda>name. None) example_connection))
        (dumped example_schema False
           (\<lambda>name. None) (\<lambda>name. None) example_connection)
        (map fst (TABLES example_schema))"
proof -
  let ?S = "example_schema"
  let ?run = "dump_iter ?S 2 False (\<lambda>name. None) (\<lambda>name. None) example_connection"
  have names: "map fst (TABLES ?S) = [''checkouts'', ''builds'', ''tests'']"
    by (simp add: example_schema_def Schema_v04_00_def TABLES_v04_00_def TABLES_ARGS_v04_00_def)
  have d: "distinct (map fst (TABLES ?S))"
    by (simp add: names)
  have tabs: "tables example_connection = example_db"
    by (simp add: example_connection_def)
  have counts: "map object_count (yielded ?run) = [2, 2, 1] \<and> returns ?run"
    unfolding dump_iter_def names tabs
    by (simp add: dump_fetch_example yield_report_def passes_example [unfolded passes_def]
        Let_def io_new_def object_count_def)
  from chunks_of_objects [of ?S 2 False "\<lambda>name. None" "\<lambda>name. None" example_connection] d counts
  have "chunked 2 (yielded ?run) (dumped ?S False (\<lambda>name. None) (\<lambda>name. None) example_connection)
      (map fst (TABLES ?S))"
    by blast
  with d counts show ?thesis
    by simp
qed

text \<open>
  With \<open>n = 0\<close> and no object in the database, no document is yielded, where the claim
  has exactly one.
\<close>

theorem chunks_of_objects_counterexample:
  "returns (dump_iter example_schema 0 False
      (\<lambda>name. None) (\<lambda>name. None)
      (snd (init sqlite_execute TABLES_v04_00 (new_connection True))))
   \<and> yielded (dump_iter example_schema 0 False
      (\<lambda>name. None) (\<lambda>name. None)
      (snd (init sqlite_execute TABLES_v04_00 (new_connection True)))) = []"
  unfolding tables_init_v04_00
  by (simp add: dump_iter_def dump_fetch_def example_schema_def Schema_v04_00_def
      TABLES_v04_00_def TABLES_ARGS_v04_00_def)

section \<open>Rendering a pattern with an empty set of IDs\<close>

text \<open>
  For a pattern without a base whose set of IDs is there and empty, the rendered statement
  is the type's statement with \<^verbatim>\<open> WHERE 0\<close> appended to its text, whatever the statement
  ends in, and there are no parameters.
\<close>

lemma oo_query_render_no_ids:
  assumes "map_of OO_QUERIES (type_name obj_type) = Some type_query_string"
  shows "oo_query_render OO_QUERIES (Pattern None child obj_type (Some [])) =
         Inr (type_query_string @ '' WHERE 0'', [])"
  using assms by (simp add: restricted_def)

text \<open>
  C4. The statements rendered for the revisions (v04\_00) and for the issues (v04\_01)
  restricted to an empty set of IDs: the statement of either type ends in a
  \<^verbatim>\<open>GROUP BY\<close> clause, and \<^verbatim>\<open> WHERE 0\<close> is appended after that clause. In a
  \<^verbatim>\<open>SELECT\<close> statement the \<^verbatim>\<open>WHERE\<close> clause stands before \<^verbatim>\<open>GROUP BY\<close>, so the
  text is no statement restricted by an always-false condition: the database refuses it
  instead of returning no rows. (With a set of IDs that is not empty the type's statement
  is put in parentheses as a subquery first, lines 738-754.)
\<close>

theorem oo_query_render_empty_id_set:
  "oo_query_render OO_QUERIES_v04_00 (Pattern None False revision_type (Some [])) =
     Inr (''SELECT\<newline>    git_commit_hash,\<newline>    patchset_hash,\<newline>    patchset_files,\<newline>    git_commit_name\<newline>FROM checkouts\<newline>GROUP BY git_commit_hash, patchset_hash WHERE 0'',
          [])
   \<and> oo_query_render OO_QUERIES_v04_01 (Pattern None False issue_type (Some [])) =
     Inr (''SELECT\<newline>    id,\<newline>    origin\<newline>FROM issues\<newline>GROUP BY id WHERE 0'', [])"
  by (simp add: OO_QUERIES_v04_00_def OO_QUERIES_v04_01_def revision_type_def issue_type_def
      restricted_def revision_statement_v04_00_def issue_statement_v04_01_def)

end
